theory Spec2Isabelle
  imports Complex_Main "HOL-Library.Word" "HOL-Library.Multiset"
begin

section \<open>JavaScript values\<close>

text \<open>
  A JavaScript string is a sequence of UTF-16 code units. The two markers of the action
  trace, U+2705 (white heavy check mark) and U+274C (cross mark), are one code unit each.
  \<open>ascii\<close> turns an ASCII literal of the source into code units.
\<close>

type_synonym jsstring = "16 word list"

definition ascii :: "string \<Rightarrow> jsstring" where
  "ascii s = map of_char s"

definition check_mark :: jsstring where
  "check_mark = [0x2705]"

definition cross_mark :: jsstring where
  "cross_mark = [0x274C]"

text \<open>
  The values that cross the wire are JSON values; \<open>JUndefined\<close> is the result of reading
  a property that is absent. \<open>JNum n\<close> is the double whose value is the integer \<open>n\<close>
  (the counters of the quality report are counts); every integer of absolute value at
  most \<open>2 ^ 53\<close> is a double. Property names are ASCII identifiers and are written as
  plain strings; an object is the list of its properties.
\<close>

datatype jsval =
    JUndefined
  | JNull
  | JBool bool
  | JNum int
  | JStr jsstring
  | JArr "jsval list"
  | JObj "(string \<times> jsval) list"

datatype js_exn = TypeError

fun truthy :: "jsval \<Rightarrow> bool" where
  "truthy JUndefined = False"
| "truthy JNull = False"
| "truthy (JBool b) = b"
| "truthy (JNum n) = (n \<noteq> 0)"
| "truthy (JStr s) = (s \<noteq> [])"
| "truthy (JArr xs) = True"
| "truthy (JObj fs) = True"

text \<open>\<open>a || b\<close>\<close>

definition js_or :: "jsval \<Rightarrow> jsval \<Rightarrow> jsval" where
  "js_or a b = (if truthy a then a else b)"

text \<open>
  \<open>v.k\<close>: reading a property of \<open>undefined\<close> or \<open>null\<close> throws a TypeError; an object
  yields the property or \<open>undefined\<close>; strings and arrays have \<open>length\<close>, and none of the
  other property names read by this program.
\<close>

fun get_prop :: "jsval \<Rightarrow> string \<Rightarrow> js_exn + jsval" where
  "get_prop JUndefined k = Inl TypeError"
| "get_prop JNull k = Inl TypeError"
| "get_prop (JObj fs) k = Inr (case map_of fs k of Some v \<Rightarrow> v | None \<Rightarrow> JUndefined)"
| "get_prop (JStr s) k = Inr (if k = ''length'' then JNum (int (length s)) else JUndefined)"
| "get_prop (JArr xs) k = Inr (if k = ''length'' then JNum (int (length xs)) else JUndefined)"
| "get_prop v k = Inr JUndefined"

text \<open>\<open>v?.k\<close>\<close>

definition opt_chain :: "jsval \<Rightarrow> string \<Rightarrow> jsval" where
  "opt_chain v k = (case get_prop v k of Inl e \<Rightarrow> JUndefined | Inr x \<Rightarrow> x)"

text \<open>
  \<open>a + b\<close>. The addition of doubles is exact where both operands and their sum are
  integers of absolute value at most \<open>2 ^ 53\<close>; there \<open>js_add\<close> is the sum. Everywhere
  else (a sum that is rounded, string concatenation, conversion of an operand to a number)
  the result is that of the parameter \<open>coerce\<close>, which stands for the rest of the
  operator, so that every result below holds whatever it yields.
\<close>

definition safe_integer :: "int \<Rightarrow> bool" where
  "safe_integer n = (- (2 ^ 53) \<le> n \<and> n \<le> 2 ^ 53)"

fun js_add :: "(jsval \<Rightarrow> jsval \<Rightarrow> jsval) \<Rightarrow> jsval \<Rightarrow> jsval \<Rightarrow> jsval" where
  "js_add coerce (JNum a) (JNum b) =
     (if safe_integer a \<and> safe_integer b \<and> safe_integer (a + b) then JNum (a + b)
      else coerce (JNum a) (JNum b))"
| "js_add coerce a b = coerce a b"

text \<open>\<open>s.startsWith(p)\<close>\<close>

definition startsWith :: "jsstring \<Rightarrow> jsstring \<Rightarrow> bool" where
  "startsWith s p = (take (length p) s = p)"

text \<open>
  \<open>s.trim()\<close> removes the white space and line terminators of ECMAScript from both ends.
\<close>

definition is_ws :: "16 word \<Rightarrow> bool" where
  "is_ws c = (c = 0x9 \<or> c = 0xA \<or> c = 0xB \<or> c = 0xC \<or> c = 0xD \<or> c = 0x20 \<or> c = 0xA0
     \<or> c = 0x1680 \<or> (0x2000 \<le> c \<and> c \<le> 0x200A) \<or> c = 0x2028 \<or> c = 0x2029
     \<or> c = 0x202F \<or> c = 0x205F \<or> c = 0x3000 \<or> c = 0xFEFF)"

definition trim :: "jsstring \<Rightarrow> jsstring" where
  "trim s = rev (dropWhile is_ws (rev (dropWhile is_ws s)))"


section \<open>api/monday.js\<close>

text \<open>
  \<open>axios.post\<close> is the capability \<open>post\<close>: given the request it resolves with a response
  or rejects with an error object. An error object carries its \<open>message\<close> and, when the
  server answered, the \<open>response\<close>.
\<close>

record http_request =
  url :: jsstring
  body :: jsval

record http_response =
  data :: jsval

record js_error =
  err_message :: jsstring
  err_response :: jsval

type_synonym axios = "http_request \<Rightarrow> js_error + http_response"

text \<open>\<open>import.meta.env.VITE_API_BASE_URL || "http://localhost:7860"\<close>\<close>

definition API_BASE_URL :: "jsstring option \<Rightarrow> jsstring" where
  "API_BASE_URL env =
     (case env of
        None \<Rightarrow> ascii ''http://localhost:7860''
      | Some u \<Rightarrow> if u \<noteq> [] then u else ascii ''http://localhost:7860'')"

text \<open>
  The backend cannot be reached: the request is rejected with the message of axios for a
  network failure, and there is no response.
\<close>

definition offline :: axios where
  "offline req = Inl \<lparr>err_message = ascii ''Network Error'', err_response = JUndefined\<rparr>"


text \<open>
  \<open>sendQuery\<close> returns the requests it issued, in order, and the outcome of its promise.
\<close>

definition sendQuery ::
  "jsstring option \<Rightarrow> axios \<Rightarrow> jsval \<Rightarrow> jsval \<Rightarrow> http_request list \<times> (js_error + jsval)" where
  "sendQuery env post message history =
     (let req = \<lparr>url = API_BASE_URL env @ ascii ''/query'',
                 body = JObj [(''message'', message), (''history'', history)]\<rparr>
      in ([req], case post req of Inl e \<Rightarrow> Inl e | Inr response \<Rightarrow> Inr (data response)))"


section \<open>components/ActionTrace.jsx\<close>

record trace_row =
  dotColor :: string
  connector :: bool
  text_of :: jsstring

datatype trace_view = Placeholder | Timeline "trace_row list"

text \<open>The callback of \<open>steps.map\<close>, for the entry at \<open>index\<close> of \<open>n\<close> entries.\<close>

fun render_step :: "nat \<Rightarrow> nat \<Rightarrow> jsval \<Rightarrow> js_exn + trace_row" where
  "render_step n index (JStr step) =
     (let isLast = (int index = int n - 1);
          isSuccess = startsWith step check_mark;
          isError = startsWith step cross_mark;
          dotColor0 = ''var(--accent)'';
          dotColor1 = (if isSuccess then ''#22C55E'' else dotColor0);
          dotColor2 = (if isError then ''#EF4444'' else dotColor1)
      in Inr \<lparr>dotColor = dotColor2, connector = (\<not> isLast), text_of = step\<rparr>)"
| "render_step n index v = Inl TypeError"

fun map_steps :: "nat \<Rightarrow> nat \<Rightarrow> jsval list \<Rightarrow> js_exn + trace_row list" where
  "map_steps n index [] = Inr []"
| "map_steps n index (v # vs) =
     (case render_step n index v of
        Inl e \<Rightarrow> Inl e
      | Inr r \<Rightarrow> (case map_steps n (Suc index) vs of Inl e \<Rightarrow> Inl e | Inr rs \<Rightarrow> Inr (r # rs)))"

definition ActionTrace :: "jsval \<Rightarrow> js_exn + trace_view" where
  "ActionTrace steps =
     (if \<not> truthy steps \<or> get_prop steps ''length'' = Inr (JNum 0) then Inr Placeholder
      else case steps of
             JArr vs \<Rightarrow> (case map_steps (length vs) 0 vs of
                           Inl e \<Rightarrow> Inl e | Inr rs \<Rightarrow> Inr (Timeline rs))
           | _ \<Rightarrow> Inl TypeError)"


section \<open>The root component (App)\<close>

record chat_message =
  role :: jsstring
  content :: jsval
  responseTime :: "jsstring option"

record app_state =
  messages :: "chat_message list"
  actionTrace :: jsval
  dataQualityReport :: jsval
  loading :: bool
  traceOpen :: bool
  darkMode :: bool

text \<open>The state of the first render (\<open>dark\<close> is the stored theme).\<close>

definition initial_state :: "bool \<Rightarrow> app_state" where
  "initial_state dark =
     \<lparr>messages = [], actionTrace = JArr [], dataQualityReport = JNull, loading = False,
      traceOpen = False, darkMode = dark\<rparr>"

text \<open>\<open>messages.map((m) => ({role: m.role, content: m.content}))\<close>\<close>

definition history_of :: "chat_message list \<Rightarrow> jsval" where
  "history_of ms = JArr (map (\<lambda>m. JObj [(''role'', JStr (role m)), (''content'', content m)]) ms)"

text \<open>
  \<open>[...v]\<close>: an array spreads into its elements, a string into its code points (a
  surrogate pair stays one element), and the other values are not iterable.
\<close>

fun code_points :: "jsstring \<Rightarrow> jsstring list" where
  "code_points (h # l # cs) =
     (if 0xD800 \<le> h \<and> h \<le> 0xDBFF \<and> 0xDC00 \<le> l \<and> l \<le> 0xDFFF
      then [h, l] # code_points cs else [h] # code_points (l # cs))"
| "code_points [c] = [[c]]"
| "code_points [] = []"

fun spread :: "jsval \<Rightarrow> js_exn + jsval list" where
  "spread (JArr xs) = Inr xs"
| "spread (JStr s) = Inr (map JStr (code_points s))"
| "spread v = Inl TypeError"

text \<open>
  The synchronous part of \<open>handleSend\<close>, up to the \<open>await\<close>: the state shown while the
  request is in flight.
\<close>

definition handleSend_begin :: "app_state \<Rightarrow> jsstring \<Rightarrow> app_state" where
  "handleSend_begin st message =
     (let userMessage = \<lparr>role = ascii ''user'', content = JStr message, responseTime = None\<rparr>;
          updatedMessages = messages st @ [userMessage]
      in st\<lparr>messages := updatedMessages, loading := True,
            actionTrace := JArr [JStr (ascii ''Sending query to agent...'')],
            traceOpen := True\<rparr>)"

text \<open>
  The rest of the \<open>try\<close> block once \<open>sendQuery\<close> has resolved with \<open>response\<close>. It returns
  the exception thrown, if any, and the state reached.
\<close>

definition handleSend_try ::
  "chat_message list \<Rightarrow> jsstring \<Rightarrow> jsval \<Rightarrow> app_state \<Rightarrow> js_exn option \<times> app_state" where
  "handleSend_try updatedMessages elapsed response st =
     (case get_prop response ''answer'' of
        Inl e \<Rightarrow> (Some e, st)
      | Inr answer \<Rightarrow>
          (let assistantMessage =
                 \<lparr>role = ascii ''assistant'', content = answer, responseTime = Some elapsed\<rparr>;
               st1 = st\<lparr>messages := updatedMessages @ [assistantMessage]\<rparr>
           in case get_prop response ''action_trace'' of
                Inl e \<Rightarrow> (Some e, st1)
              | Inr action_trace \<Rightarrow>
                  (let st2 = st1\<lparr>actionTrace := js_or action_trace (JArr [])\<rparr>
                   in case get_prop response ''data_quality_report'' of
                        Inl e \<Rightarrow> (Some e, st2)
                      | Inr data_quality_report \<Rightarrow>
                          (None, st2\<lparr>dataQualityReport := js_or data_quality_report JNull\<rparr>))))"

text \<open>
  The \<open>catch\<close> block. The updater \<open>(prev) => [...prev, entry]\<close> runs on the trace of the
  state it is applied to.
\<close>

definition fallback_answer :: jsstring where
  "fallback_answer =
     ascii ''Sorry, something went wrong. Please check that the backend is running and try again.''"

definition handleSend_catch ::
  "chat_message list \<Rightarrow> jsstring \<Rightarrow> js_error \<Rightarrow> app_state \<Rightarrow> js_exn + app_state" where
  "handleSend_catch updatedMessages elapsed error st =
     (let errorMessage =
            \<lparr>role = ascii ''assistant'',
             content = js_or (opt_chain (opt_chain (err_response error) ''data'') ''detail'')
                             (JStr fallback_answer),
             responseTime = Some elapsed\<rparr>;
          st1 = st\<lparr>messages := updatedMessages @ [errorMessage]\<rparr>
      in case spread (actionTrace st1) of
           Inl e \<Rightarrow> Inl e
         | Inr prev \<Rightarrow>
             Inr (st1\<lparr>actionTrace :=
                        JArr (prev @ [JStr (cross_mark @ ascii '' Error: '' @ err_message error)])\<rparr>))"

text \<open>
  \<open>handleSend\<close> from the state \<open>st\<close> of the render it was created in. \<open>elapsed\<close> is the
  text of \<open>((Date.now() - startTime) / 1000).toFixed(1)\<close>, read from the clock, and
  \<open>type_error_text\<close> the message the engine gives a TypeError. The result is the requests
  issued and the final state.
\<close>

definition handleSend ::
  "jsstring option \<Rightarrow> axios \<Rightarrow> jsstring \<Rightarrow> jsstring \<Rightarrow> app_state \<Rightarrow> jsstring
     \<Rightarrow> http_request list \<times> (js_exn + app_state)" where
  "handleSend env post type_error_text elapsed st message =
     (let userMessage = \<lparr>role = ascii ''user'', content = JStr message, responseTime = None\<rparr>;
          updatedMessages = messages st @ [userMessage];
          st1 = handleSend_begin st message;
          history = history_of (messages st);
          (reqs, outcome) = sendQuery env post (JStr message) history;
          tried =
            (case outcome of
               Inl error \<Rightarrow> (Some error, st1)
             | Inr response \<Rightarrow>
                 (case handleSend_try updatedMessages elapsed response st1 of
                    (None, st2) \<Rightarrow> (None, st2)
                  | (Some TypeError, st2) \<Rightarrow>
                      (Some \<lparr>err_message = type_error_text, err_response = JUndefined\<rparr>, st2)));
          caught =
            (case tried of
               (None, st2) \<Rightarrow> Inr st2
             | (Some error, st2) \<Rightarrow> handleSend_catch updatedMessages elapsed error st2)
      in (reqs, case caught of Inl e \<Rightarrow> Inl e | Inr st3 \<Rightarrow> Inr (st3\<lparr>loading := False\<rparr>)))"


section \<open>components/InputBar.jsx\<close>

text \<open>
  The component holds the text of the field; \<open>loading\<close> is a property. A handler returns
  the arguments of its calls of \<open>onSend\<close>, in order, and the new text of the field.
\<close>

definition handleSubmit :: "bool \<Rightarrow> jsstring \<Rightarrow> jsstring list \<times> jsstring" where
  "handleSubmit loading_prop message =
     (let trimmed = trim message
      in if trimmed = [] \<or> loading_prop then ([], message) else ([trimmed], []))"

definition handleKeyDown :: "bool \<Rightarrow> jsstring \<Rightarrow> string \<Rightarrow> bool \<Rightarrow> jsstring list \<times> jsstring" where
  "handleKeyDown loading_prop message key shiftKey =
     (if key = ''Enter'' \<and> \<not> shiftKey then handleSubmit loading_prop message else ([], message))"

text \<open>\<open>disabled={loading || !message.trim()}\<close> of the button, \<open>disabled={loading}\<close> of the field.\<close>

definition button_disabled :: "bool \<Rightarrow> jsstring \<Rightarrow> bool" where
  "button_disabled loading_prop message = (loading_prop \<or> trim message = [])"

datatype input_event = Change jsstring | KeyDown string bool | Click

text \<open>A disabled control dispatches no event.\<close>

fun InputBar_event :: "bool \<Rightarrow> jsstring \<Rightarrow> input_event \<Rightarrow> jsstring list \<times> jsstring" where
  "InputBar_event loading_prop message (Change v) =
     (if loading_prop then ([], message) else ([], v))"
| "InputBar_event loading_prop message (KeyDown key shiftKey) =
     (if loading_prop then ([], message) else handleKeyDown loading_prop message key shiftKey)"
| "InputBar_event loading_prop message Click =
     (if button_disabled loading_prop message then ([], message)
      else handleSubmit loading_prop message)"


section \<open>components/DataQualityReport.jsx\<close>

datatype summary_line = NoIssuesFound | IssuesItems jsval jsval

record quality_card =
  summaryColor :: string
  summaryLine :: summary_line
  details :: "(string \<times> jsval \<times> bool) list option"

definition bind_exn :: "js_exn + 'a \<Rightarrow> ('a \<Rightarrow> js_exn + 'b) \<Rightarrow> js_exn + 'b" where
  "bind_exn r f = (case r of Inl e \<Rightarrow> Inl e | Inr x \<Rightarrow> f x)"

text \<open>\<open>totalIssues\<close> of the component, from the three counters read.\<close>

definition totalIssues :: "(jsval \<Rightarrow> jsval \<Rightarrow> jsval) \<Rightarrow> jsval \<Rightarrow> jsval \<Rightarrow> jsval \<Rightarrow> jsval" where
  "totalIssues coerce missing_values unparseable_dates unparseable_numbers =
     js_add coerce
       (js_add coerce (js_or missing_values (JNum 0)) (js_or unparseable_dates (JNum 0)))
       (js_or unparseable_numbers (JNum 0))"

text \<open>
  The component returns \<open>None\<close> where the source returns \<open>null\<close> (nothing is rendered).
  The cells of the details are (label, value, warn); they are there when \<open>expanded\<close>.
\<close>

definition DataQualityReport ::
  "(jsval \<Rightarrow> jsval \<Rightarrow> jsval) \<Rightarrow> bool \<Rightarrow> jsval \<Rightarrow> js_exn + quality_card option" where
  "DataQualityReport coerce expanded report =
     (if \<not> truthy report then Inr None
      else bind_exn (get_prop report ''summary'') (\<lambda>summary.
        if \<not> truthy summary then Inr None
        else bind_exn (get_prop report ''missing_values'') (\<lambda>missing_values.
             bind_exn (get_prop report ''unparseable_dates'') (\<lambda>unparseable_dates.
             bind_exn (get_prop report ''unparseable_numbers'') (\<lambda>unparseable_numbers.
             bind_exn (get_prop report ''total_items'') (\<lambda>total_items.
               (let total = totalIssues coerce missing_values unparseable_dates unparseable_numbers
                in Inr (Some
                     \<lparr>summaryColor = (if total = JNum 0 then ''#22C55E'' else ''#F59E0B''),
                      summaryLine = (if total = JNum 0 then NoIssuesFound
                                     else IssuesItems total (js_or total_items (JNum 0))),
                      details =
                        (if expanded
                         then Some [(''Items'', js_or total_items (JNum 0), False),
                                    (''Missing'', js_or missing_values (JNum 0), True),
                                    (''Bad Dates'', js_or unparseable_dates (JNum 0), False),
                                    (''Bad Numbers'', js_or unparseable_numbers (JNum 0), False)]
                         else None)\<rparr>))))))))"


section \<open>The data cleaner (backend/data_cleaner.py)\<close>

text \<open>
  Modelled from the spec: \<open>backend/data_cleaner.py\<close> is not among the sources; every
  definition of this section follows sections 3 and 4.2 of the specification. A Python
  string (\<open>pystr\<close>) is a sequence of code points. A floating value is modelled by the
  rational number it denotes. The set of currency symbols, and the cleaners of dates,
  texts and categories, which the specification does not spell out, are parameters.
\<close>

type_synonym pystr = "nat list"

definition cp :: "string \<Rightarrow> pystr" where
  "cp s = map of_char s"

definition rupee :: nat where
  "rupee = 0x20B9"

datatype provenance = Original | Normalized | Missing | Unparseable

datatype field_type = DateType | NumberType | CategoryType | TextType

datatype cleaned_value = DateValue pystr | NumberValue rat | TextValue pystr

record quality_counters =
  total_items :: nat
  missing_values :: nat
  unparseable_dates :: nat
  unparseable_numbers :: nat
  normalization_events :: nat

record quality_report = quality_counters +
  summary :: bool

definition zero_counters :: quality_counters where
  "zero_counters = \<lparr>total_items = 0, missing_values = 0, unparseable_dates = 0,
                     unparseable_numbers = 0, normalization_events = 0\<rparr>"

definition add_counters :: "quality_counters \<Rightarrow> quality_counters \<Rightarrow> quality_counters" where
  "add_counters a b =
     \<lparr>total_items = total_items a + total_items b,
      missing_values = missing_values a + missing_values b,
      unparseable_dates = unparseable_dates a + unparseable_dates b,
      unparseable_numbers = unparseable_numbers a + unparseable_numbers b,
      normalization_events = normalization_events a + normalization_events b\<rparr>"

definition sum_reports :: "quality_counters list \<Rightarrow> quality_counters" where
  "sum_reports rs = foldr add_counters rs zero_counters"

subsection \<open>Numbers and currency\<close>

definition is_digit :: "nat \<Rightarrow> bool" where
  "is_digit c = (48 \<le> c \<and> c \<le> 57)"

definition digits_value :: "pystr \<Rightarrow> nat" where
  "digits_value ds = foldl (\<lambda>a c. 10 * a + (c - 48)) 0 ds"

text \<open>
  A decimal numeral: digits, then possibly a point and digits, with a digit somewhere.
\<close>

definition parse_decimal :: "pystr \<Rightarrow> rat option" where
  "parse_decimal s =
     (let whole = takeWhile is_digit s
      in case dropWhile is_digit s of
           [] \<Rightarrow> if whole = [] then None else Some (of_nat (digits_value whole))
         | c # fraction \<Rightarrow>
             if c = 46 \<and> list_all is_digit fraction \<and> (whole \<noteq> [] \<or> fraction \<noteq> [])
             then Some (of_nat (digits_value whole)
                        + of_nat (digits_value fraction) / 10 ^ length fraction)
             else None)"

text \<open>
  Modelled from the spec: the currency symbols. The specification shows the rupee sign
  and names no list; the model takes the dollar, pound, yen, euro and rupee signs.
\<close>

definition is_currency_symbol :: "nat \<Rightarrow> bool" where
  "is_currency_symbol c = (c = 0x24 \<or> c = 0xA3 \<or> c = 0xA5 \<or> c = 0x20AC \<or> c = 0x20B9)"

text \<open>Currency symbols and thousands separators (commas) are removed.\<close>

definition strip_symbols :: "(nat \<Rightarrow> bool) \<Rightarrow> pystr \<Rightarrow> pystr" where
  "strip_symbols currency s = filter (\<lambda>c. \<not> currency c \<and> c \<noteq> 44) s"

definition to_lower :: "nat \<Rightarrow> nat" where
  "to_lower c = (if 65 \<le> c \<and> c \<le> 90 then c + 32 else c)"

definition ends_with :: "pystr \<Rightarrow> pystr \<Rightarrow> bool" where
  "ends_with s suffix =
     (length suffix \<le> length s \<and> drop (length s - length suffix) s = suffix)"

text \<open>The trailing magnitude suffix, if any, is split off: the rest and the multiplier.\<close>

definition magnitude :: "pystr \<Rightarrow> pystr \<times> rat" where
  "magnitude s =
     (let l = map to_lower s
      in if ends_with l (cp ''cr'') then (take (length s - 2) s, 10 ^ 7)
         else if ends_with l (cp ''k'') then (take (length s - 1) s, 10 ^ 3)
         else if ends_with l (cp ''m'') then (take (length s - 1) s, 10 ^ 6)
         else (s, 1))"

text \<open>
  Modelled from the spec: the number cleaner of \<open>backend/data_cleaner.py\<close> (section 4.2,
  numbers and currency): strip, split the magnitude off, convert, scale. \<open>None\<close> is the
  failure of the conversion.
\<close>

definition clean_number :: "(nat \<Rightarrow> bool) \<Rightarrow> pystr \<Rightarrow> rat option" where
  "clean_number currency s =
     (case magnitude (strip_symbols currency s) of
        (numeral_part, multiplier) \<Rightarrow>
          map_option (\<lambda>v. v * multiplier) (parse_decimal numeral_part))"

text \<open>
  Modelled from the spec: the cleaned number field of \<open>backend/data_cleaner.py\<close>. On
  failure the original string is kept and the field is marked unparseable. On success the
  field is flagged original when the string was a plain numeral already, and normalized
  otherwise.
\<close>

definition clean_number_field :: "(nat \<Rightarrow> bool) \<Rightarrow> pystr \<Rightarrow> cleaned_value \<times> provenance" where
  "clean_number_field currency s =
     (case clean_number currency s of
        Some v \<Rightarrow> (NumberValue v, if parse_decimal s = Some v then Original else Normalized)
      | None \<Rightarrow> (TextValue s, Unparseable))"

subsection \<open>Items and the quality report\<close>

record cleaners =
  currency_symbol :: "nat \<Rightarrow> bool"
  clean_date :: "pystr \<Rightarrow> cleaned_value \<times> provenance"
  clean_text :: "pystr \<Rightarrow> cleaned_value \<times> provenance"
  clean_category :: "pystr \<Rightarrow> cleaned_value \<times> provenance"

fun clean_field :: "cleaners \<Rightarrow> field_type \<Rightarrow> pystr \<Rightarrow> cleaned_value \<times> provenance" where
  "clean_field cl NumberType v = clean_number_field (currency_symbol cl) v"
| "clean_field cl DateType v = clean_date cl v"
| "clean_field cl TextType v = clean_text cl v"
| "clean_field cl CategoryType v = clean_category cl v"

text \<open>
  Modelled from the spec: the outcome of one field, as counters (section 4.2: a missing
  value, an unparseable date, an unparseable number, a normalization).
\<close>

fun field_outcome :: "field_type \<Rightarrow> provenance \<Rightarrow> quality_counters" where
  "field_outcome t Missing = zero_counters\<lparr>missing_values := 1\<rparr>"
| "field_outcome DateType Unparseable = zero_counters\<lparr>unparseable_dates := 1\<rparr>"
| "field_outcome NumberType Unparseable = zero_counters\<lparr>unparseable_numbers := 1\<rparr>"
| "field_outcome t Normalized = zero_counters\<lparr>normalization_events := 1\<rparr>"
| "field_outcome t p = zero_counters"

type_synonym raw_item = "(pystr \<times> pystr) list"

type_synonym cleaned_item = "(pystr \<times> field_type \<times> cleaned_value \<times> provenance) list"

definition clean_item :: "cleaners \<Rightarrow> (pystr \<Rightarrow> field_type) \<Rightarrow> raw_item \<Rightarrow> cleaned_item" where
  "clean_item cl schema item =
     map (\<lambda>(name, v). (name, schema name, clean_field cl (schema name) v)) item"

definition item_report :: "cleaned_item \<Rightarrow> quality_counters" where
  "item_report item =
     add_counters (zero_counters\<lparr>total_items := 1\<rparr>)
       (sum_reports (map (\<lambda>(name, t, v, p). field_outcome t p) item))"

text \<open>
  Modelled from the spec: \<open>clean\<close> of \<open>backend/data_cleaner.py\<close> (section 4.2): the
  cleaned items and the report, which is the sum of the reports of the items.
\<close>

definition clean ::
  "cleaners \<Rightarrow> (pystr \<Rightarrow> field_type) \<Rightarrow> raw_item list \<Rightarrow> cleaned_item list \<times> quality_counters" where
  "clean cl schema items =
     (let cleaned = map (clean_item cl schema) items
      in (cleaned, sum_reports (map item_report cleaned)))"


section \<open>The pipeline orchestrator (backend/agent.py)\<close>

text \<open>
  Modelled from the spec: \<open>backend/agent.py\<close> is not among the sources; the state
  machine of section 4.5 of the specification, with the planner, the data source, the
  metric engine and the composer as parameters. A trace entry is the stage entered, the
  note of a board whose fetch failed, or the terminal marker (success or failure).
\<close>

datatype stage =
  PLANNING | CLARIFYING | FETCHING | CLEANING | AGGREGATING | COMPOSING | DONE | FAILED

datatype trace_entry = Enter stage | BoardFailed pystr | Exit bool

datatype fetch_error = SourceUnavailable | RateLimited

record query_plan =
  boards :: "pystr list"
  filters :: "(pystr \<times> pystr \<times> pystr) list"
  metrics :: "(pystr \<times> pystr \<times> pystr) list"
  analysis_type :: pystr
  needs_clarification :: bool
  clarification_question :: "pystr option"

record response_envelope =
  answer :: pystr
  action_trace :: "trace_entry list"
  data_quality_report :: quality_report

record 'm collaborators =
  planner :: "pystr \<Rightarrow> (pystr \<times> pystr) list \<Rightarrow> query_plan"
  fetch :: "pystr \<Rightarrow> fetch_error + raw_item list"
  schema_of :: "pystr \<Rightarrow> pystr \<Rightarrow> field_type"
  field_cleaners :: cleaners
  compute :: "cleaned_item list \<Rightarrow> query_plan \<Rightarrow> 'm list"
  composer :: "'m list \<Rightarrow> quality_report \<Rightarrow> pystr \<Rightarrow> pystr"
  flagged :: "quality_counters \<Rightarrow> bool"
  failure_answer :: pystr

definition empty_report :: quality_report where
  "empty_report = quality_counters.extend zero_counters (quality_report.fields False)"

text \<open>
  Modelled from the spec: the orchestrator of \<open>backend/agent.py\<close> (section 4.5). One
  entry is appended on entry to each state and one on terminal exit; a failed fetch of a
  board is noted and the boards that succeeded go on; when none succeeds the request has
  failed. Where the plan asks for clarification without a question, the specification
  names no answer and the model has the empty text.
\<close>

definition run :: "'m collaborators \<Rightarrow> pystr \<Rightarrow> (pystr \<times> pystr) list \<Rightarrow> response_envelope" where
  "run c utterance history =
     (let trace0 = [Enter PLANNING];
          p = planner c utterance history
      in if needs_clarification p
         then \<lparr>answer = (case clarification_question p of Some q \<Rightarrow> q | None \<Rightarrow> []),
               action_trace = trace0 @ [Enter CLARIFYING, Exit True],
               data_quality_report = empty_report\<rparr>
         else
           (let trace1 = trace0 @ [Enter FETCHING];
                fetched = map (\<lambda>b. (b, fetch c b)) (boards p);
                succeeded = concat (map (\<lambda>(b, r). case r of Inl e \<Rightarrow> [] | Inr items \<Rightarrow> [(b, items)])
                                        fetched);
                trace2 = trace1 @ concat (map (\<lambda>(b, r). case r of Inl e \<Rightarrow> [BoardFailed b]
                                                                | Inr items \<Rightarrow> []) fetched)
            in if succeeded = []
               then \<lparr>answer = failure_answer c,
                     action_trace = trace2 @ [Enter FAILED, Exit False],
                     data_quality_report = empty_report\<rparr>
               else
                 (let trace3 = trace2 @ [Enter CLEANING];
                      cleaned = map (\<lambda>(b, items). clean (field_cleaners c) (schema_of c b) items)
                                    succeeded;
                      counters = sum_reports (map snd cleaned);
                      report = quality_counters.extend counters
                                 (quality_report.fields (flagged c counters));
                      trace4 = trace3 @ [Enter AGGREGATING];
                      results = compute c (concat (map fst cleaned)) p;
                      trace5 = trace4 @ [Enter COMPOSING];
                      briefing = composer c results report utterance
                  in \<lparr>answer = briefing,
                      action_trace = trace5 @ [Enter DONE, Exit True],
                      data_quality_report = report\<rparr>)))"


section \<open>Properties of the API layer\<close>

text \<open>
  C1. Every call of \<open>sendQuery\<close> issues exactly one request, a POST to the base URL
  followed by \<open>/query\<close>, whose body is the object of \<open>message\<close> and \<open>history\<close>, and its
  promise resolves to the \<open>data\<close> of the response, unchanged (and rejects with the error of
  the request otherwise).
\<close>

theorem sendQuery_contract:
  "sendQuery env post message history =
     ([\<lparr>url = API_BASE_URL env @ ascii ''/query'',
        body = JObj [(''message'', message), (''history'', history)]\<rparr>],
      case post \<lparr>url = API_BASE_URL env @ ascii ''/query'',
                  body = JObj [(''message'', message), (''history'', history)]\<rparr> of
        Inl e \<Rightarrow> Inl e
      | Inr response \<Rightarrow> Inr (data response))"
  by (simp add: sendQuery_def Let_def)

theorem sendQuery_contract_witness:
  "sendQuery None (\<lambda>r. Inr \<lparr>data = JObj [(''answer'', JStr (ascii ''42'')),
                                         (''action_trace'', JArr []),
                                         (''data_quality_report'', JNull)]\<rparr>)
       (JStr (ascii ''hi'')) (JArr [])
   = ([\<lparr>url = ascii ''http://localhost:7860/query'',
        body = JObj [(''message'', JStr (ascii ''hi'')), (''history'', JArr [])]\<rparr>],
      Inr (JObj [(''answer'', JStr (ascii ''42'')), (''action_trace'', JArr []),
                 (''data_quality_report'', JNull)]))"
  using sendQuery_contract [of None
      "\<lambda>r. Inr \<lparr>data = JObj [(''answer'', JStr (ascii ''42'')), (''action_trace'', JArr []),
                               (''data_quality_report'', JNull)]\<rparr>"
      "JStr (ascii ''hi'')" "JArr []"]
  by (simp add: API_BASE_URL_def ascii_def)


section \<open>Properties of the action trace\<close>

lemma marks_exclusive: "\<not> (startsWith s check_mark \<and> startsWith s cross_mark)"
  by (cases s) (auto simp: startsWith_def check_mark_def cross_mark_def)

lemma render_step_string:
  "render_step n i (JStr s) =
     Inr \<lparr>dotColor = (if startsWith s cross_mark then ''#EF4444''
                       else if startsWith s check_mark then ''#22C55E'' else ''var(--accent)''),
          connector = (Suc i \<noteq> n), text_of = s\<rparr>"
  by (auto simp: Let_def)

lemma map_steps_strings:
  "map_steps n i (map JStr ss) =
     Inr (map (\<lambda>(j, s). \<lparr>dotColor = (if startsWith s cross_mark then ''#EF4444''
                       else if startsWith s check_mark then ''#22C55E'' else ''var(--accent)''),
          connector = (Suc j \<noteq> n), text_of = s\<rparr>) (zip [i ..< i + length ss] ss))"
proof (induction ss arbitrary: i)
  case Nil
  then show ?case by simp
next
  case (Cons s ss)
  have "[i ..< i + length (s # ss)] = i # [Suc i ..< Suc i + length ss]"
    by (simp add: upt_rec)
  then show ?case using Cons[of "Suc i"]
    by (simp only: list.map map_steps.simps render_step_string zip_Cons_Cons) simp
qed

lemma ActionTrace_strings:
  assumes "steps \<noteq> []"
  shows "ActionTrace (JArr (map JStr steps)) =
     Inr (Timeline (map (\<lambda>(j, s). \<lparr>dotColor = (if startsWith s cross_mark then ''#EF4444''
                       else if startsWith s check_mark then ''#22C55E'' else ''var(--accent)''),
          connector = (Suc j \<noteq> length steps), text_of = s\<rparr>) (zip [0 ..< length steps] steps)))"
  using assms map_steps_strings[of "length steps" 0 steps]
  by (simp add: ActionTrace_def)

text \<open>
  C3. The tag of a rendered entry depends on its leading marker alone: the dot is green
  exactly when the entry starts with the check mark, red exactly when it starts with the
  cross mark, and of the accent colour otherwise; the rows keep the order of the entries.
\<close>

theorem ActionTrace_marker_tags:
  assumes "steps \<noteq> []"
  shows "\<exists>rows. ActionTrace (JArr (map JStr steps)) = Inr (Timeline rows)
      \<and> map text_of rows = steps
      \<and> (\<forall>i<length steps.
           (dotColor (rows ! i) = ''#22C55E'' \<longleftrightarrow> startsWith (steps ! i) check_mark)
         \<and> (dotColor (rows ! i) = ''#EF4444'' \<longleftrightarrow> startsWith (steps ! i) cross_mark)
         \<and> (dotColor (rows ! i) = ''var(--accent)'' \<longleftrightarrow>
              \<not> startsWith (steps ! i) check_mark \<and> \<not> startsWith (steps ! i) cross_mark))"
proof -
  let ?row = "\<lambda>(j, s). \<lparr>dotColor = (if startsWith s cross_mark then ''#EF4444''
                       else if startsWith s check_mark then ''#22C55E'' else ''var(--accent)''),
          connector = (Suc j \<noteq> length steps), text_of = s\<rparr>"
  let ?rows = "map ?row (zip [0 ..< length steps] steps)"
  have eq: "ActionTrace (JArr (map JStr steps)) = Inr (Timeline ?rows)"
    by (rule ActionTrace_strings[OF assms])
  have texts: "map text_of ?rows = steps"
    by (rule nth_equalityI) simp_all
  have tags: "\<forall>i<length steps.
           (dotColor (?rows ! i) = ''#22C55E'' \<longleftrightarrow> startsWith (steps ! i) check_mark)
         \<and> (dotColor (?rows ! i) = ''#EF4444'' \<longleftrightarrow> startsWith (steps ! i) cross_mark)
         \<and> (dotColor (?rows ! i) = ''var(--accent)'' \<longleftrightarrow>
              \<not> startsWith (steps ! i) check_mark \<and> \<not> startsWith (steps ! i) cross_mark)"
    using marks_exclusive by simp
  from eq texts tags show ?thesis by blast
qed

theorem ActionTrace_marker_tags_witness:
  "[check_mark @ ascii ''Done'', cross_mark @ ascii ''Failed'', ascii ''Working''] \<noteq> []
   \<and> (\<exists>rows. ActionTrace (JArr (map JStr
          [check_mark @ ascii ''Done'', cross_mark @ ascii ''Failed'', ascii ''Working'']))
          = Inr (Timeline rows)
      \<and> map text_of rows = [check_mark @ ascii ''Done'', cross_mark @ ascii ''Failed'', ascii ''Working'']
      \<and> dotColor (rows ! 0) = ''#22C55E''
      \<and> dotColor (rows ! 1) = ''#EF4444''
      \<and> dotColor (rows ! 2) = ''var(--accent)'')"
proof -
  define steps where "steps = [check_mark @ ascii ''Done'', cross_mark @ ascii ''Failed'', ascii ''Working'']"
  have ne: "steps \<noteq> []" by (simp add: steps_def)
  from ActionTrace_marker_tags[OF ne] obtain rows where
    r: "ActionTrace (JArr (map JStr steps)) = Inr (Timeline rows)"
    and t: "map text_of rows = steps"
    and g: "\<forall>i<length steps.
           (dotColor (rows ! i) = ''#22C55E'' \<longleftrightarrow> startsWith (steps ! i) check_mark)
         \<and> (dotColor (rows ! i) = ''#EF4444'' \<longleftrightarrow> startsWith (steps ! i) cross_mark)
         \<and> (dotColor (rows ! i) = ''var(--accent)'' \<longleftrightarrow>
              \<not> startsWith (steps ! i) check_mark \<and> \<not> startsWith (steps ! i) cross_mark)"
    by blast
  have len: "length steps = 3" by (simp add: steps_def)
  have s0: "startsWith (steps ! 0) check_mark"
    by (simp add: steps_def startsWith_def check_mark_def)
  have s1: "startsWith (steps ! 1) cross_mark"
    by (simp add: steps_def startsWith_def cross_mark_def)
  have s2: "\<not> startsWith (steps ! 2) check_mark \<and> \<not> startsWith (steps ! 2) cross_mark"
    by (simp add: steps_def startsWith_def cross_mark_def check_mark_def ascii_def)
  have g0: "dotColor (rows ! 0) = ''#22C55E''"
    using g[rule_format, of 0] s0 len by simp
  have g1: "dotColor (rows ! 1) = ''#EF4444''"
    using g[rule_format, of 1] s1 len by simp
  have g2: "dotColor (rows ! 2) = ''var(--accent)''"
    using g[rule_format, of 2] s2 len by simp
  have "steps \<noteq> [] \<and> (\<exists>rows. ActionTrace (JArr (map JStr steps)) = Inr (Timeline rows)
      \<and> map text_of rows = steps
      \<and> dotColor (rows ! 0) = ''#22C55E''
      \<and> dotColor (rows ! 1) = ''#EF4444''
      \<and> dotColor (rows ! 2) = ''var(--accent)'')"
    by (intro conjI exI[of _ rows]; fact)
  then show ?thesis unfolding steps_def .
qed


section \<open>Properties of \<open>handleSend\<close>\<close>

text \<open>
  The three ways a call of \<open>handleSend\<close> ends: the request resolves and the body can be
  read, the request is rejected, or the body is \<open>null\<close> or \<open>undefined\<close> and reading
  \<open>answer\<close> throws inside the \<open>try\<close> block.
\<close>

lemma get_prop_total_after:
  "get_prop v k = Inr a \<Longrightarrow> \<exists>b. get_prop v k' = Inr b"
  by (cases v) auto

lemma get_prop_Inl:
  "get_prop v k = Inl e \<Longrightarrow> get_prop v k' = Inl TypeError"
  by (cases v) auto

lemma handleSend_resolved:
  assumes "post \<lparr>url = API_BASE_URL env @ ascii ''/query'',
                  body = JObj [(''message'', JStr message),
                               (''history'', history_of (messages st))]\<rparr> = Inr response"
    and "get_prop (data response) ''answer'' = Inr a"
    and "get_prop (data response) ''action_trace'' = Inr t"
    and "get_prop (data response) ''data_quality_report'' = Inr q"
  shows "handleSend env post type_error_text elapsed st message =
     ([\<lparr>url = API_BASE_URL env @ ascii ''/query'',
        body = JObj [(''message'', JStr message), (''history'', history_of (messages st))]\<rparr>],
      Inr (st\<lparr>messages := messages st @
                  [\<lparr>role = ascii ''user'', content = JStr message, responseTime = None\<rparr>,
                   \<lparr>role = ascii ''assistant'', content = a, responseTime = Some elapsed\<rparr>],
              actionTrace := js_or t (JArr []),
              dataQualityReport := js_or q JNull,
              loading := False,
              traceOpen := True\<rparr>))"
  using assms
  by (simp add: handleSend_def handleSend_begin_def handleSend_try_def sendQuery_def Let_def)

lemma handleSend_rejected:
  assumes "post \<lparr>url = API_BASE_URL env @ ascii ''/query'',
                  body = JObj [(''message'', JStr message),
                               (''history'', history_of (messages st))]\<rparr> = Inl error"
  shows "handleSend env post type_error_text elapsed st message =
     ([\<lparr>url = API_BASE_URL env @ ascii ''/query'',
        body = JObj [(''message'', JStr message), (''history'', history_of (messages st))]\<rparr>],
      Inr (st\<lparr>messages := messages st @
                  [\<lparr>role = ascii ''user'', content = JStr message, responseTime = None\<rparr>,
                   \<lparr>role = ascii ''assistant'',
                    content = js_or (opt_chain (opt_chain (err_response error) ''data'') ''detail'')
                                    (JStr fallback_answer),
                    responseTime = Some elapsed\<rparr>],
              actionTrace := JArr [JStr (ascii ''Sending query to agent...''),
                                   JStr (cross_mark @ ascii '' Error: '' @ err_message error)],
              loading := False,
              traceOpen := True\<rparr>))"
  using assms
  by (simp add: handleSend_def handleSend_begin_def handleSend_catch_def sendQuery_def Let_def)

lemma handleSend_nullish:
  assumes "post \<lparr>url = API_BASE_URL env @ ascii ''/query'',
                  body = JObj [(''message'', JStr message),
                               (''history'', history_of (messages st))]\<rparr> = Inr response"
    and "get_prop (data response) ''answer'' = Inl e"
  shows "handleSend env post type_error_text elapsed st message =
     ([\<lparr>url = API_BASE_URL env @ ascii ''/query'',
        body = JObj [(''message'', JStr message), (''history'', history_of (messages st))]\<rparr>],
      Inr (st\<lparr>messages := messages st @
                  [\<lparr>role = ascii ''user'', content = JStr message, responseTime = None\<rparr>,
                   \<lparr>role = ascii ''assistant'', content = JStr fallback_answer,
                    responseTime = Some elapsed\<rparr>],
              actionTrace := JArr [JStr (ascii ''Sending query to agent...''),
                                   JStr (cross_mark @ ascii '' Error: '' @ type_error_text)],
              loading := False,
              traceOpen := True\<rparr>))"
  using assms
  by (cases e) (simp add: handleSend_def handleSend_begin_def handleSend_try_def
      handleSend_catch_def sendQuery_def Let_def opt_chain_def js_or_def)

text \<open>
  C4. When the request resolves with a body whose properties can be read, the state after
  \<open>handleSend\<close> is determined by the three values read from it: the content of the
  assistant message is \<open>answer\<close>, the trace becomes \<open>action_trace\<close> (the empty list when
  absent), the quality report becomes \<open>data_quality_report\<close> (\<open>null\<close> when absent). Any
  other response with the same three values leaves the same state.
\<close>

theorem handleSend_success_fields:
  assumes "post \<lparr>url = API_BASE_URL env @ ascii ''/query'',
                  body = JObj [(''message'', JStr message),
                               (''history'', history_of (messages st))]\<rparr> = Inr response"
    and "get_prop (data response) ''answer'' = Inr a"
    and "get_prop (data response) ''action_trace'' = Inr t"
    and "get_prop (data response) ''data_quality_report'' = Inr q"
  shows "snd (handleSend env post type_error_text elapsed st message) =
      Inr (st\<lparr>messages := messages st @
                  [\<lparr>role = ascii ''user'', content = JStr message, responseTime = None\<rparr>,
                   \<lparr>role = ascii ''assistant'', content = a, responseTime = Some elapsed\<rparr>],
              actionTrace := (if truthy t then t else JArr []),
              dataQualityReport := (if truthy q then q else JNull),
              loading := False,
              traceOpen := True\<rparr>)
    \<and> (t = JUndefined \<longrightarrow>
          map_sum id actionTrace (snd (handleSend env post type_error_text elapsed st message))
            = Inr (JArr []))
    \<and> (q = JUndefined \<longrightarrow>
          map_sum id dataQualityReport (snd (handleSend env post type_error_text elapsed st message))
            = Inr JNull)
    \<and> (\<forall>post' response'.
          post' \<lparr>url = API_BASE_URL env @ ascii ''/query'',
                 body = JObj [(''message'', JStr message),
                              (''history'', history_of (messages st))]\<rparr> = Inr response'
          \<and> get_prop (data response') ''answer'' = Inr a
          \<and> get_prop (data response') ''action_trace'' = Inr t
          \<and> get_prop (data response') ''data_quality_report'' = Inr q
          \<longrightarrow> snd (handleSend env post' type_error_text elapsed st message)
              = snd (handleSend env post type_error_text elapsed st message))"
proof -
  have main: "snd (handleSend env post type_error_text elapsed st message) =
      Inr (st\<lparr>messages := messages st @
                  [\<lparr>role = ascii ''user'', content = JStr message, responseTime = None\<rparr>,
                   \<lparr>role = ascii ''assistant'', content = a, responseTime = Some elapsed\<rparr>],
              actionTrace := (if truthy t then t else JArr []),
              dataQualityReport := (if truthy q then q else JNull),
              loading := False,
              traceOpen := True\<rparr>)"
    using assms handleSend_resolved[where post = post and env = env and message = message
        and st = st and response = response and a = a and t = t and q = q
        and type_error_text = type_error_text and elapsed = elapsed]
    by (simp add: js_or_def)
  have other: "snd (handleSend env post' type_error_text elapsed st message)
              = snd (handleSend env post type_error_text elapsed st message)"
    if "post' \<lparr>url = API_BASE_URL env @ ascii ''/query'',
                 body = JObj [(''message'', JStr message),
                              (''history'', history_of (messages st))]\<rparr> = Inr response'"
      and "get_prop (data response') ''answer'' = Inr a"
      and "get_prop (data response') ''action_trace'' = Inr t"
      and "get_prop (data response') ''data_quality_report'' = Inr q"
    for post' response'
    using that assms
      handleSend_resolved[where post = post' and env = env and message = message
        and st = st and response = response' and a = a and t = t and q = q
        and type_error_text = type_error_text and elapsed = elapsed]
      handleSend_resolved[where post = post and env = env and message = message
        and st = st and response = response and a = a and t = t and q = q
        and type_error_text = type_error_text and elapsed = elapsed]
    by simp
  show ?thesis
    apply (intro conjI allI impI)
    subgoal by (rule main)
    subgoal by (simp add: main)
    subgoal by (simp add: main)
    subgoal for post' response' by (elim conjE) (rule other; assumption)
    done
qed

theorem handleSend_success_fields_witness:
  "(\<lambda>r. Inr \<lparr>data = JObj [(''answer'', JStr (ascii ''42'')), (''debug'', JNum 7)]\<rparr>)
      \<lparr>url = API_BASE_URL None @ ascii ''/query'',
       body = JObj [(''message'', JStr (ascii ''hi'')),
                    (''history'', history_of (messages (initial_state False)))]\<rparr>
     = (Inr \<lparr>data = JObj [(''answer'', JStr (ascii ''42'')), (''debug'', JNum 7)]\<rparr>
          :: js_error + http_response)
   \<and> get_prop (JObj [(''answer'', JStr (ascii ''42'')), (''debug'', JNum 7)]) ''answer''
       = Inr (JStr (ascii ''42''))
   \<and> get_prop (JObj [(''answer'', JStr (ascii ''42'')), (''debug'', JNum 7)]) ''action_trace''
       = Inr JUndefined
   \<and> get_prop (JObj [(''answer'', JStr (ascii ''42'')), (''debug'', JNum 7)])
         ''data_quality_report'' = Inr JUndefined
   \<and> snd (handleSend None
             (\<lambda>r. Inr \<lparr>data = JObj [(''answer'', JStr (ascii ''42'')), (''debug'', JNum 7)]\<rparr>)
             [] (ascii ''0.1'') (initial_state False) (ascii ''hi''))
       = Inr \<lparr>messages =
                 [\<lparr>role = ascii ''user'', content = JStr (ascii ''hi''), responseTime = None\<rparr>,
                  \<lparr>role = ascii ''assistant'', content = JStr (ascii ''42''),
                   responseTime = Some (ascii ''0.1'')\<rparr>],
               actionTrace = JArr [], dataQualityReport = JNull, loading = False,
               traceOpen = True, darkMode = False\<rparr>"
proof -
  let ?post = "\<lambda>r::http_request.
     (Inr \<lparr>data = JObj [(''answer'', JStr (ascii ''42'')), (''debug'', JNum 7)]\<rparr>
        :: js_error + http_response)"
  have h2: "get_prop (JObj [(''answer'', JStr (ascii ''42'')), (''debug'', JNum 7)]) ''answer''
       = Inr (JStr (ascii ''42''))" by simp
  have h3: "get_prop (JObj [(''answer'', JStr (ascii ''42'')), (''debug'', JNum 7)]) ''action_trace''
       = Inr JUndefined" by simp
  have h4: "get_prop (JObj [(''answer'', JStr (ascii ''42'')), (''debug'', JNum 7)])
         ''data_quality_report'' = Inr JUndefined" by simp
  have "snd (handleSend None ?post [] (ascii ''0.1'') (initial_state False) (ascii ''hi''))
       = Inr ((initial_state False)\<lparr>messages := messages (initial_state False) @
                  [\<lparr>role = ascii ''user'', content = JStr (ascii ''hi''), responseTime = None\<rparr>,
                   \<lparr>role = ascii ''assistant'', content = JStr (ascii ''42''),
                    responseTime = Some (ascii ''0.1'')\<rparr>],
              actionTrace := (if truthy JUndefined then JUndefined else JArr []),
              dataQualityReport := (if truthy JUndefined then JUndefined else JNull),
              loading := False,
              traceOpen := True\<rparr>)"
    using handleSend_success_fields[where post = ?post and env = None
        and message = "ascii ''hi''" and st = "initial_state False"
        and response = "\<lparr>data = JObj [(''answer'', JStr (ascii ''42'')), (''debug'', JNum 7)]\<rparr>"
        and a = "JStr (ascii ''42'')" and t = JUndefined and q = JUndefined
        and type_error_text = "[]" and elapsed = "ascii ''0.1''", THEN conjunct1]
      h2 h3 h4 by simp
  then have "snd (handleSend None ?post [] (ascii ''0.1'') (initial_state False) (ascii ''hi''))
       = Inr \<lparr>messages =
                 [\<lparr>role = ascii ''user'', content = JStr (ascii ''hi''), responseTime = None\<rparr>,
                  \<lparr>role = ascii ''assistant'', content = JStr (ascii ''42''),
                   responseTime = Some (ascii ''0.1'')\<rparr>],
               actionTrace = JArr [], dataQualityReport = JNull, loading = False,
               traceOpen = True, darkMode = False\<rparr>"
    by (simp add: initial_state_def)
  with h2 h3 h4 show ?thesis by simp
qed

text \<open>
  C5. Every call of \<open>handleSend\<close>, however the request ends, leaves the prior turns as
  they were and appends the user turn and then one assistant turn; the history sent is the
  prior turns in order, each as its \<open>role\<close> and \<open>content\<close>, without the message being sent.
\<close>

theorem handleSend_appends_two_turns:
  "\<exists>st' reply.
     handleSend env post type_error_text elapsed st message =
       ([\<lparr>url = API_BASE_URL env @ ascii ''/query'',
          body = JObj [(''message'', JStr message),
                       (''history'',
                        JArr (map (\<lambda>m. JObj [(''role'', JStr (role m)), (''content'', content m)])
                                  (messages st)))]\<rparr>],
        Inr st')
     \<and> messages st' =
         messages st @ [\<lparr>role = ascii ''user'', content = JStr message, responseTime = None\<rparr>, reply]
     \<and> role reply = ascii ''assistant''
     \<and> messages (handleSend_begin st message) =
         messages st @ [\<lparr>role = ascii ''user'', content = JStr message, responseTime = None\<rparr>]"
proof -
  let ?req = "\<lparr>url = API_BASE_URL env @ ascii ''/query'',
                body = JObj [(''message'', JStr message),
                             (''history'', history_of (messages st))]\<rparr>"
  have b: "messages (handleSend_begin st message) =
         messages st @ [\<lparr>role = ascii ''user'', content = JStr message, responseTime = None\<rparr>]"
    by (simp add: handleSend_begin_def)
  have h: "history_of (messages st) =
     JArr (map (\<lambda>m. JObj [(''role'', JStr (role m)), (''content'', content m)]) (messages st))"
    by (simp add: history_of_def)
  show ?thesis
  proof (cases "post ?req")
    case (Inl error)
    show ?thesis
      by (simp add: handleSend_rejected[where post = post, OF Inl] b h[symmetric])
  next
    case (Inr response)
    show ?thesis
    proof (cases "get_prop (data response) ''answer''")
      case (Inl e)
      show ?thesis
        by (simp add: handleSend_nullish[where post = post, OF Inr Inl] b h[symmetric])
    next
      case a: (Inr a)
      from get_prop_total_after[OF a] obtain t where t: "get_prop (data response) ''action_trace'' = Inr t"
        by auto
      from get_prop_total_after[OF a] obtain q where q: "get_prop (data response) ''data_quality_report'' = Inr q"
        by auto
      show ?thesis
        by (simp add: handleSend_resolved[where post = post, OF Inr a t q] b h[symmetric])
    qed
  qed
qed

theorem handleSend_appends_two_turns_witness:
  "\<exists>st' reply.
     handleSend None offline [] (ascii ''0.1'') (initial_state False) (ascii ''hi'') =
       ([\<lparr>url = ascii ''http://localhost:7860/query'',
          body = JObj [(''message'', JStr (ascii ''hi'')), (''history'', JArr [])]\<rparr>],
        Inr st')
     \<and> messages st' =
         [\<lparr>role = ascii ''user'', content = JStr (ascii ''hi''), responseTime = None\<rparr>, reply]
     \<and> role reply = ascii ''assistant''"
proof -
  from handleSend_appends_two_turns [of None offline "[]" "ascii ''0.1''" "initial_state False"
      "ascii ''hi''"]
  obtain st' reply where
    1: "handleSend None offline [] (ascii ''0.1'') (initial_state False) (ascii ''hi'') =
       ([\<lparr>url = API_BASE_URL None @ ascii ''/query'',
          body = JObj [(''message'', JStr (ascii ''hi'')),
                       (''history'',
                        JArr (map (\<lambda>m. JObj [(''role'', JStr (role m)), (''content'', content m)])
                                  (messages (initial_state False))))]\<rparr>],
        Inr st')"
    and 2: "messages st' = messages (initial_state False) @
         [\<lparr>role = ascii ''user'', content = JStr (ascii ''hi''), responseTime = None\<rparr>, reply]"
    and 3: "role reply = ascii ''assistant''"
    by (elim exE conjE)
  have a: "handleSend None offline [] (ascii ''0.1'') (initial_state False) (ascii ''hi'') =
       ([\<lparr>url = ascii ''http://localhost:7860/query'',
          body = JObj [(''message'', JStr (ascii ''hi'')), (''history'', JArr [])]\<rparr>],
        Inr st')"
    using 1 by (simp add: initial_state_def API_BASE_URL_def ascii_def)
  have b: "messages st' =
         [\<lparr>role = ascii ''user'', content = JStr (ascii ''hi''), responseTime = None\<rparr>, reply]"
    using 2 by (simp add: initial_state_def)
  show ?thesis
    by (intro exI[of _ st'] exI[of _ reply] conjI) (fact a, fact b, fact 3)
qed





section \<open>Properties of the input bar\<close>

lemma trim_empty_iff: "trim s = [] \<longleftrightarrow> (\<forall>c\<in>set s. is_ws c)"
proof -
  have "trim s = [] \<longleftrightarrow> (\<forall>c\<in>set (dropWhile is_ws s). is_ws c)"
    by (simp add: trim_def dropWhile_eq_Nil_conv)
  also have "\<dots> \<longleftrightarrow> dropWhile is_ws s = []"
  proof
    assume a: "\<forall>c\<in>set (dropWhile is_ws s). is_ws c"
    show "dropWhile is_ws s = []"
    proof (rule ccontr)
      assume n: "dropWhile is_ws s \<noteq> []"
      then have "\<not> is_ws (hd (dropWhile is_ws s))" by (rule hd_dropWhile)
      moreover from n have "hd (dropWhile is_ws s) \<in> set (dropWhile is_ws s)" by simp
      ultimately show False using a by blast
    qed
  next
    assume "dropWhile is_ws s = []"
    then show "\<forall>c\<in>set (dropWhile is_ws s). is_ws c" by (simp only: list.set ball_empty)
  qed
  also have "\<dots> \<longleftrightarrow> (\<forall>c\<in>set s. is_ws c)"
    by (simp add: dropWhile_eq_Nil_conv)
  finally show ?thesis .
qed

lemma trim_ends:
  assumes "trim s \<noteq> []"
  shows "\<not> is_ws (hd (trim s)) \<and> \<not> is_ws (last (trim s))"
proof -
  let ?a = "dropWhile is_ws s"
  let ?b = "dropWhile is_ws (rev ?a)"
  from assms have b: "?b \<noteq> []" by (simp add: trim_def)
  have a: "?a \<noteq> []"
  proof
    assume "?a = []"
    then have "?b = []" by (simp only: rev.simps dropWhile.simps)
    with b show False ..
  qed
  have l: "\<not> is_ws (last (trim s))"
    using hd_dropWhile[OF b] b by (simp add: trim_def last_rev)
  have "\<not> is_ws (hd ?a)" using a by (rule hd_dropWhile)
  then have "\<not> is_ws (last (rev ?a))" using a by (simp add: last_rev)
  moreover have "rev ?a = takeWhile is_ws (rev ?a) @ ?b" by simp
  ultimately have "last ?b = last (rev ?a)" using b by (metis last_appendR)
  then have "hd (trim s) = hd ?a" using a b by (simp add: trim_def hd_rev last_rev)
  with \<open>\<not> is_ws (hd ?a)\<close> l show ?thesis by simp
qed

lemma handleSubmit_char:
  "handleSubmit loading_prop message =
     (if trim message \<noteq> [] \<and> \<not> loading_prop then ([trim message], []) else ([], message))"
  by (simp add: handleSubmit_def Let_def)

text \<open>
  C9. \<open>onSend\<close> is called only when the trimmed text is not empty and no request is in
  flight; its argument is the trimmed text, which has a character that is not white space
  at each end, and the field is cleared by the same event. This holds for \<open>handleSubmit\<close>
  itself, for the Enter key and for the button, and for every event of the component.
\<close>

theorem InputBar_sends_trimmed_nonempty:
  "handleSubmit loading_prop message =
     (if trim message \<noteq> [] \<and> \<not> loading_prop then ([trim message], []) else ([], message))
   \<and> handleKeyDown loading_prop message key shiftKey =
     (if key = ''Enter'' \<and> \<not> shiftKey \<and> trim message \<noteq> [] \<and> \<not> loading_prop
      then ([trim message], []) else ([], message))
   \<and> InputBar_event loading_prop message Click =
     (if trim message \<noteq> [] \<and> \<not> loading_prop then ([trim message], []) else ([], message))
   \<and> (\<forall>ev. fst (InputBar_event loading_prop message ev) \<noteq> [] \<longrightarrow>
          InputBar_event loading_prop message ev = ([trim message], [])
          \<and> trim message \<noteq> [] \<and> \<not> loading_prop
          \<and> (\<exists>c\<in>set message. \<not> is_ws c)
          \<and> \<not> is_ws (hd (trim message)) \<and> \<not> is_ws (last (trim message)))"
proof (intro conjI allI impI)
  show "handleSubmit loading_prop message =
     (if trim message \<noteq> [] \<and> \<not> loading_prop then ([trim message], []) else ([], message))"
    by (rule handleSubmit_char)
  show "handleKeyDown loading_prop message key shiftKey =
     (if key = ''Enter'' \<and> \<not> shiftKey \<and> trim message \<noteq> [] \<and> \<not> loading_prop
      then ([trim message], []) else ([], message))"
    by (simp add: handleKeyDown_def handleSubmit_char)
  show c: "InputBar_event loading_prop message Click =
     (if trim message \<noteq> [] \<and> \<not> loading_prop then ([trim message], []) else ([], message))"
    by (simp add: button_disabled_def handleSubmit_char)
  fix ev
  assume s: "fst (InputBar_event loading_prop message ev) \<noteq> []"
  have sent: "InputBar_event loading_prop message ev = ([trim message], [])
      \<and> trim message \<noteq> [] \<and> \<not> loading_prop"
    using s by (cases ev) (auto simp: handleKeyDown_def handleSubmit_char button_disabled_def
        split: if_splits)
  from sent show "InputBar_event loading_prop message ev = ([trim message], [])"
    by (rule conjunct1)
  from sent show "trim message \<noteq> []" by (elim conjE)
  from sent show "\<not> loading_prop" by (elim conjE)
  from sent show "\<exists>c\<in>set message. \<not> is_ws c" using trim_empty_iff[of message] by blast
  from sent show "\<not> is_ws (hd (trim message))" "\<not> is_ws (last (trim message))"
    using trim_ends[of message] by simp_all
qed

theorem InputBar_sends_trimmed_nonempty_witness:
  "fst (InputBar_event False (ascii ''  hi '') (KeyDown ''Enter'' False)) \<noteq> []
   \<and> InputBar_event False (ascii ''  hi '') (KeyDown ''Enter'' False) = ([ascii ''hi''], [])
   \<and> InputBar_event True (ascii ''  hi '') Click = ([], ascii ''  hi '')
   \<and> InputBar_event False (ascii ''   '') Click = ([], ascii ''   '')"
proof -
  have t: "trim (ascii ''  hi '') = ascii ''hi''"
    by (simp add: trim_def ascii_def is_ws_def)
  have t2: "trim (ascii ''   '') = []"
    by (simp add: trim_def ascii_def is_ws_def)
  have k: "handleKeyDown False (ascii ''  hi '') ''Enter'' False = ([ascii ''hi''], [])"
    using InputBar_sends_trimmed_nonempty[of False "ascii ''  hi ''" "''Enter''" False] t
    by (simp add: ascii_def)
  have e: "InputBar_event False (ascii ''  hi '') (KeyDown ''Enter'' False) = ([ascii ''hi''], [])"
    using k by simp
  have c1: "InputBar_event True (ascii ''  hi '') Click = ([], ascii ''  hi '')"
    using InputBar_sends_trimmed_nonempty[of True "ascii ''  hi ''" "''Enter''" False]
    by simp
  have c2: "InputBar_event False (ascii ''   '') Click = ([], ascii ''   '')"
    using InputBar_sends_trimmed_nonempty[of False "ascii ''   ''" "''Enter''" False] t2
    by simp
  from e c1 c2 show ?thesis by simp
qed


section \<open>Properties of the quality report card\<close>

lemma get_prop_truthy: "truthy v \<Longrightarrow> \<exists>x. get_prop v k = Inr x"
  by (cases v) auto

lemma js_or_counter:
  "js_or (case c of None \<Rightarrow> JUndefined | Some n \<Rightarrow> JNum n) (JNum 0)
     = JNum (case c of None \<Rightarrow> 0 | Some n \<Rightarrow> n)"
  by (cases c) (auto simp: js_or_def)

lemma totalIssues_counters:
  assumes "safe_integer (case mv of None \<Rightarrow> 0 | Some n \<Rightarrow> n)"
    and "safe_integer (case ud of None \<Rightarrow> 0 | Some n \<Rightarrow> n)"
    and "safe_integer (case un of None \<Rightarrow> 0 | Some n \<Rightarrow> n)"
    and "safe_integer ((case mv of None \<Rightarrow> 0 | Some n \<Rightarrow> n)
                       + (case ud of None \<Rightarrow> 0 | Some n \<Rightarrow> n))"
    and "safe_integer ((case mv of None \<Rightarrow> 0 | Some n \<Rightarrow> n)
                       + (case ud of None \<Rightarrow> 0 | Some n \<Rightarrow> n)
                       + (case un of None \<Rightarrow> 0 | Some n \<Rightarrow> n))"
  shows "totalIssues coerce (case mv of None \<Rightarrow> JUndefined | Some n \<Rightarrow> JNum n)
      (case ud of None \<Rightarrow> JUndefined | Some n \<Rightarrow> JNum n)
      (case un of None \<Rightarrow> JUndefined | Some n \<Rightarrow> JNum n)
   = JNum ((case mv of None \<Rightarrow> 0 | Some n \<Rightarrow> n) + (case ud of None \<Rightarrow> 0 | Some n \<Rightarrow> n)
           + (case un of None \<Rightarrow> 0 | Some n \<Rightarrow> n))"
  using assms by (simp add: totalIssues_def js_or_counter)

lemma DataQualityReport_hidden:
  "\<not> truthy report \<Longrightarrow> DataQualityReport coerce expanded report = Inr None"
  "get_prop report ''summary'' = Inr s \<Longrightarrow> \<not> truthy s \<Longrightarrow>
     DataQualityReport coerce expanded report = Inr None"
  by (simp_all add: DataQualityReport_def bind_exn_def)

lemma DataQualityReport_total: "\<exists>r. DataQualityReport coerce expanded report = Inr r"
proof (cases "truthy report")
  case False
  then show ?thesis by (simp add: DataQualityReport_hidden)
next
  case True
  from get_prop_truthy[OF True] obtain s m d n t where
    "get_prop report ''summary'' = Inr s" "get_prop report ''missing_values'' = Inr m"
    "get_prop report ''unparseable_dates'' = Inr d" "get_prop report ''unparseable_numbers'' = Inr n"
    "get_prop report ''total_items'' = Inr t"
    by metis
  with True show ?thesis
    by (simp add: DataQualityReport_def bind_exn_def Let_def)
qed

lemma DataQualityReport_shown:
  assumes "truthy report"
    and "get_prop report ''summary'' = Inr s" and "truthy s"
    and "get_prop report ''missing_values'' = Inr (case mv of None \<Rightarrow> JUndefined | Some n \<Rightarrow> JNum n)"
    and "get_prop report ''unparseable_dates'' = Inr (case ud of None \<Rightarrow> JUndefined | Some n \<Rightarrow> JNum n)"
    and "get_prop report ''unparseable_numbers'' = Inr (case un of None \<Rightarrow> JUndefined | Some n \<Rightarrow> JNum n)"
    and "get_prop report ''total_items'' = Inr items"
    and "safe_integer (case mv of None \<Rightarrow> 0 | Some n \<Rightarrow> n)"
    and "safe_integer (case ud of None \<Rightarrow> 0 | Some n \<Rightarrow> n)"
    and "safe_integer (case un of None \<Rightarrow> 0 | Some n \<Rightarrow> n)"
    and "safe_integer ((case mv of None \<Rightarrow> 0 | Some n \<Rightarrow> n)
                       + (case ud of None \<Rightarrow> 0 | Some n \<Rightarrow> n))"
    and "safe_integer ((case mv of None \<Rightarrow> 0 | Some n \<Rightarrow> n)
                       + (case ud of None \<Rightarrow> 0 | Some n \<Rightarrow> n)
                       + (case un of None \<Rightarrow> 0 | Some n \<Rightarrow> n))"
    and "issues = (case mv of None \<Rightarrow> 0 | Some n \<Rightarrow> n) + (case ud of None \<Rightarrow> 0 | Some n \<Rightarrow> n)
           + (case un of None \<Rightarrow> 0 | Some n \<Rightarrow> n)"
  shows "DataQualityReport coerce expanded report =
     Inr (Some \<lparr>summaryColor = (if issues = 0 then ''#22C55E'' else ''#F59E0B''),
                summaryLine = (if issues = 0 then NoIssuesFound
                               else IssuesItems (JNum issues) (js_or items (JNum 0))),
                details =
                  (if expanded
                   then Some [(''Items'', js_or items (JNum 0), False),
                              (''Missing'', JNum (case mv of None \<Rightarrow> 0 | Some n \<Rightarrow> n), True),
                              (''Bad Dates'', JNum (case ud of None \<Rightarrow> 0 | Some n \<Rightarrow> n), False),
                              (''Bad Numbers'', JNum (case un of None \<Rightarrow> 0 | Some n \<Rightarrow> n), False)]
                   else None)\<rparr>)"
  using assms
  by (simp add: DataQualityReport_def bind_exn_def Let_def totalIssues_counters js_or_counter)

lemma DataQualityReport_ignores_normalization_events:
  assumes "\<forall>k. k \<noteq> ''normalization_events'' \<longrightarrow> map_of fs k = map_of fs' k"
  shows "DataQualityReport coerce expanded (JObj fs) = DataQualityReport coerce expanded (JObj fs')"
  using assms by (simp add: DataQualityReport_def bind_exn_def Let_def)

text \<open>
  C10. The component never throws. It renders nothing for a falsy report (\<open>null\<close>,
  absent) and for a report whose \<open>summary\<close> is falsy. Otherwise, with each of the three
  counters absent or an integer, and the counters and their sums of absolute value at
  most \<open>2 ^ 53\<close> (where the addition of doubles is exact), the total is their sum with an
  absent counter as 0, and that total and the four cells are all that is shown; changing
  \<open>normalization_events\<close> changes nothing.
\<close>

theorem DataQualityReport_hidden_or_total:
  "(\<not> truthy report \<longrightarrow> DataQualityReport coerce expanded report = Inr None)
   \<and> (\<forall>s. get_prop report ''summary'' = Inr s \<and> \<not> truthy s \<longrightarrow>
          DataQualityReport coerce expanded report = Inr None)
   \<and> (\<exists>r. DataQualityReport coerce expanded report = Inr r)
   \<and> (\<forall>s mv ud un items.
         truthy report \<and> get_prop report ''summary'' = Inr s \<and> truthy s
         \<and> get_prop report ''missing_values'' =
               Inr (case mv of None \<Rightarrow> JUndefined | Some n \<Rightarrow> JNum n)
         \<and> get_prop report ''unparseable_dates'' =
               Inr (case ud of None \<Rightarrow> JUndefined | Some n \<Rightarrow> JNum n)
         \<and> get_prop report ''unparseable_numbers'' =
               Inr (case un of None \<Rightarrow> JUndefined | Some n \<Rightarrow> JNum n)
         \<and> get_prop report ''total_items'' = Inr items
         \<and> safe_integer (case mv of None \<Rightarrow> 0 | Some n \<Rightarrow> n)
         \<and> safe_integer (case ud of None \<Rightarrow> 0 | Some n \<Rightarrow> n)
         \<and> safe_integer (case un of None \<Rightarrow> 0 | Some n \<Rightarrow> n)
         \<and> safe_integer ((case mv of None \<Rightarrow> 0 | Some n \<Rightarrow> n)
                            + (case ud of None \<Rightarrow> 0 | Some n \<Rightarrow> n))
         \<and> safe_integer ((case mv of None \<Rightarrow> 0 | Some n \<Rightarrow> n)
                            + (case ud of None \<Rightarrow> 0 | Some n \<Rightarrow> n)
                            + (case un of None \<Rightarrow> 0 | Some n \<Rightarrow> n))
         \<longrightarrow> DataQualityReport coerce expanded report =
             (let issues = (case mv of None \<Rightarrow> 0 | Some n \<Rightarrow> n)
                         + (case ud of None \<Rightarrow> 0 | Some n \<Rightarrow> n)
                         + (case un of None \<Rightarrow> 0 | Some n \<Rightarrow> n)
              in Inr (Some
                 \<lparr>summaryColor = (if issues = 0 then ''#22C55E'' else ''#F59E0B''),
                  summaryLine = (if issues = 0 then NoIssuesFound
                                 else IssuesItems (JNum issues) (js_or items (JNum 0))),
                  details =
                    (if expanded
                     then Some [(''Items'', js_or items (JNum 0), False),
                                (''Missing'', JNum (case mv of None \<Rightarrow> 0 | Some n \<Rightarrow> n), True),
                                (''Bad Dates'', JNum (case ud of None \<Rightarrow> 0 | Some n \<Rightarrow> n), False),
                                (''Bad Numbers'', JNum (case un of None \<Rightarrow> 0 | Some n \<Rightarrow> n),
                                 False)]
                     else None)\<rparr>)))
   \<and> (\<forall>fs fs'. report = JObj fs
          \<and> (\<forall>k. k \<noteq> ''normalization_events'' \<longrightarrow> map_of fs k = map_of fs' k)
          \<longrightarrow> DataQualityReport coerce expanded (JObj fs') =
              DataQualityReport coerce expanded report)"
proof (intro conjI allI impI)
  show "DataQualityReport coerce expanded report = Inr None" if "\<not> truthy report"
    using that by (rule DataQualityReport_hidden(1))
  show "DataQualityReport coerce expanded report = Inr None"
    if "get_prop report ''summary'' = Inr s \<and> \<not> truthy s" for s
    using that by (auto intro: DataQualityReport_hidden(2))
  show "\<exists>r. DataQualityReport coerce expanded report = Inr r"
    by (rule DataQualityReport_total)
next
  fix s mv ud un items
  assume a: "truthy report \<and> get_prop report ''summary'' = Inr s \<and> truthy s
         \<and> get_prop report ''missing_values'' =
               Inr (case mv of None \<Rightarrow> JUndefined | Some n \<Rightarrow> JNum n)
         \<and> get_prop report ''unparseable_dates'' =
               Inr (case ud of None \<Rightarrow> JUndefined | Some n \<Rightarrow> JNum n)
         \<and> get_prop report ''unparseable_numbers'' =
               Inr (case un of None \<Rightarrow> JUndefined | Some n \<Rightarrow> JNum n)
         \<and> get_prop report ''total_items'' = Inr items
         \<and> safe_integer (case mv of None \<Rightarrow> 0 | Some n \<Rightarrow> n)
         \<and> safe_integer (case ud of None \<Rightarrow> 0 | Some n \<Rightarrow> n)
         \<and> safe_integer (case un of None \<Rightarrow> 0 | Some n \<Rightarrow> n)
         \<and> safe_integer ((case mv of None \<Rightarrow> 0 | Some n \<Rightarrow> n)
                            + (case ud of None \<Rightarrow> 0 | Some n \<Rightarrow> n))
         \<and> safe_integer ((case mv of None \<Rightarrow> 0 | Some n \<Rightarrow> n)
                            + (case ud of None \<Rightarrow> 0 | Some n \<Rightarrow> n)
                            + (case un of None \<Rightarrow> 0 | Some n \<Rightarrow> n))"
  show "DataQualityReport coerce expanded report =
             (let issues = (case mv of None \<Rightarrow> 0 | Some n \<Rightarrow> n)
                         + (case ud of None \<Rightarrow> 0 | Some n \<Rightarrow> n)
                         + (case un of None \<Rightarrow> 0 | Some n \<Rightarrow> n)
              in Inr (Some
                 \<lparr>summaryColor = (if issues = 0 then ''#22C55E'' else ''#F59E0B''),
                  summaryLine = (if issues = 0 then NoIssuesFound
                                 else IssuesItems (JNum issues) (js_or items (JNum 0))),
                  details =
                    (if expanded
                     then Some [(''Items'', js_or items (JNum 0), False),
                                (''Missing'', JNum (case mv of None \<Rightarrow> 0 | Some n \<Rightarrow> n), True),
                                (''Bad Dates'', JNum (case ud of None \<Rightarrow> 0 | Some n \<Rightarrow> n), False),
                                (''Bad Numbers'', JNum (case un of None \<Rightarrow> 0 | Some n \<Rightarrow> n),
                                 False)]
                     else None)\<rparr>))"
    unfolding Let_def
    by (rule DataQualityReport_shown[where s = s]) (use a in simp_all)
next
  fix fs fs'
  assume "report = JObj fs
          \<and> (\<forall>k. k \<noteq> ''normalization_events'' \<longrightarrow> map_of fs k = map_of fs' k)"
  then show "DataQualityReport coerce expanded (JObj fs') =
              DataQualityReport coerce expanded report"
    using DataQualityReport_ignores_normalization_events[of fs fs' coerce expanded] by simp
qed

theorem DataQualityReport_hidden_or_total_witness:
  "DataQualityReport (\<lambda>a b. JUndefined) True JNull = Inr None
   \<and> DataQualityReport (\<lambda>a b. JUndefined) True
        (JObj [(''summary'', JBool False), (''missing_values'', JNum 2)]) = Inr None
   \<and> DataQualityReport (\<lambda>a b. JUndefined) True
        (JObj [(''summary'', JBool True), (''total_items'', JNum 10),
               (''missing_values'', JNum 2), (''unparseable_numbers'', JNum 1),
               (''normalization_events'', JNum 5)])
      = Inr (Some \<lparr>summaryColor = ''#F59E0B'',
                   summaryLine = IssuesItems (JNum 3) (JNum 10),
                   details = Some [(''Items'', JNum 10, False), (''Missing'', JNum 2, True),
                                   (''Bad Dates'', JNum 0, False),
                                   (''Bad Numbers'', JNum 1, False)]\<rparr>)"
proof -
  let ?r = "JObj [(''summary'', JBool True), (''total_items'', JNum 10),
               (''missing_values'', JNum 2), (''unparseable_numbers'', JNum 1),
               (''normalization_events'', JNum 5)]"
  let ?h = "JObj [(''summary'', JBool False), (''missing_values'', JNum 2)]"
  have 1: "DataQualityReport (\<lambda>a b. JUndefined) True JNull = Inr None"
    using DataQualityReport_hidden_or_total[of JNull "\<lambda>a b. JUndefined" True, THEN conjunct1] by simp
  have 2: "DataQualityReport (\<lambda>a b. JUndefined) True ?h = Inr None"
    using DataQualityReport_hidden_or_total[of ?h "\<lambda>a b. JUndefined" True, THEN conjunct2, THEN conjunct1,
        rule_format, of "JBool False"] by simp
  have 3: "DataQualityReport (\<lambda>a b. JUndefined) True ?r
      = Inr (Some \<lparr>summaryColor = ''#F59E0B'',
                   summaryLine = IssuesItems (JNum 3) (JNum 10),
                   details = Some [(''Items'', JNum 10, False), (''Missing'', JNum 2, True),
                                   (''Bad Dates'', JNum 0, False),
                                   (''Bad Numbers'', JNum 1, False)]\<rparr>)"
    using DataQualityReport_hidden_or_total[of ?r "\<lambda>a b. JUndefined" True, THEN conjunct2, THEN conjunct2,
        THEN conjunct2, THEN conjunct1, rule_format,
        of "JBool True" "Some 2" None "Some 1" "JNum 10"]
    by (simp add: js_or_def safe_integer_def)
  from 1 2 3 show ?thesis by (intro conjI)
qed


section \<open>Properties of the number cleaner\<close>

lemma takeWhile_digits: "list_all is_digit ds \<Longrightarrow> \<not> is_digit c \<Longrightarrow> takeWhile is_digit (ds @ c # r) = ds"
  by (induction ds) simp_all

lemma dropWhile_digits: "list_all is_digit ds \<Longrightarrow> \<not> is_digit c \<Longrightarrow> dropWhile is_digit (ds @ c # r) = c # r"
  by (induction ds) simp_all

lemma parse_decimal_whole:
  assumes "list_all is_digit ds" and "ds \<noteq> []"
  shows "parse_decimal ds = Some (of_nat (digits_value ds))"
proof -
  from assms(1) have tw: "takeWhile is_digit ds = ds" and dw: "dropWhile is_digit ds = []"
    by (simp_all add: list_all_iff takeWhile_eq_all_conv dropWhile_eq_Nil_conv)
  show ?thesis
    unfolding parse_decimal_def Let_def tw dw using assms(2) by simp
qed

lemma parse_decimal_point:
  assumes "list_all is_digit ds" and "list_all is_digit fs" and "ds \<noteq> [] \<or> fs \<noteq> []"
  shows "parse_decimal (ds @ 46 # fs) =
     Some (of_nat (digits_value ds) + of_nat (digits_value fs) / 10 ^ length fs)"
proof -
  have p: "\<not> is_digit 46" by (simp add: is_digit_def)
  show ?thesis
    using assms
    by (auto simp: parse_decimal_def takeWhile_digits[OF assms(1) p] dropWhile_digits[OF assms(1) p])
qed

lemma parse_decimal_Some:
  assumes "parse_decimal d = Some x"
  shows "(list_all is_digit d \<and> d \<noteq> [] \<and> x = of_nat (digits_value d))
    \<or> (\<exists>ds fs. d = ds @ 46 # fs \<and> list_all is_digit ds \<and> list_all is_digit fs
          \<and> (ds \<noteq> [] \<or> fs \<noteq> [])
          \<and> x = of_nat (digits_value ds) + of_nat (digits_value fs) / 10 ^ length fs)"
proof (cases "dropWhile is_digit d")
  case Nil
  then have a: "list_all is_digit d" by (simp add: dropWhile_eq_Nil_conv list_all_iff)
  then have tw: "takeWhile is_digit d = d" by (simp add: list_all_iff takeWhile_eq_all_conv)
  from assms have "d \<noteq> [] \<and> x = of_nat (digits_value d)"
    unfolding parse_decimal_def Let_def tw Nil by (simp split: if_splits)
  with a show ?thesis by simp
next
  case (Cons c fs)
  let ?ds = "takeWhile is_digit d"
  have d: "d = ?ds @ c # fs" using Cons by (metis takeWhile_dropWhile_id)
  have ds: "list_all is_digit ?ds" by (auto simp: list_all_iff dest: set_takeWhileD)
  from assms Cons have "c = 46" "list_all is_digit fs" "?ds \<noteq> [] \<or> fs \<noteq> []"
    "x = of_nat (digits_value ?ds) + of_nat (digits_value fs) / 10 ^ length fs"
    by (auto simp: parse_decimal_def Let_def split: if_splits)
  with d ds show ?thesis by blast
qed

lemma digits_value_snoc: "digits_value (ds @ [c]) = 10 * digits_value ds + (c - 48)"
  by (simp add: digits_value_def)

lemma ends_with_lastD: "ends_with l suf \<Longrightarrow> suf \<noteq> [] \<Longrightarrow> l \<noteq> [] \<and> last l = last suf"
  unfolding ends_with_def
  by (metis append_take_drop_id last_appendR le_zero_eq length_0_conv list.size(3))

lemma magnitude_plain:
  assumes "d \<noteq> []" and "is_digit (last d) \<or> last d = 46"
  shows "magnitude d = (d, 1)"
proof -
  have l: "last (map to_lower d) = last d"
    using assms by (auto simp: last_map to_lower_def is_digit_def)
  have n: "last d \<noteq> 114" "last d \<noteq> 107" "last d \<noteq> 109"
    using assms(2) by (auto simp: is_digit_def)
  have "\<not> ends_with (map to_lower d) (cp ''cr'')"
    using ends_with_lastD[of "map to_lower d" "cp ''cr''"] l n by (auto simp: cp_def)
  moreover have "\<not> ends_with (map to_lower d) (cp ''k'')"
    using ends_with_lastD[of "map to_lower d" "cp ''k''"] l n by (auto simp: cp_def)
  moreover have "\<not> ends_with (map to_lower d) (cp ''m'')"
    using ends_with_lastD[of "map to_lower d" "cp ''m''"] l n by (auto simp: cp_def)
  ultimately show ?thesis by (simp add: magnitude_def Let_def)
qed

lemma to_lower_eq:
  "to_lower x = 107 \<longleftrightarrow> x = 75 \<or> x = 107"
  "to_lower x = 109 \<longleftrightarrow> x = 77 \<or> x = 109"
  "to_lower x = 99 \<longleftrightarrow> x = 67 \<or> x = 99"
  "to_lower x = 114 \<longleftrightarrow> x = 82 \<or> x = 114"
  by (auto simp: to_lower_def)

lemma ends_with_split:
  assumes "ends_with (map to_lower t) suf"
  shows "t = take (length t - length suf) t @ drop (length t - length suf) t
     \<and> map to_lower (drop (length t - length suf) t) = suf"
  using assms by (simp add: ends_with_def drop_map)

lemma ends_with_append: "ends_with (a @ b) b"
  by (simp add: ends_with_def)

lemma ends_with_last: "ends_with (a @ [x]) [y] \<longleftrightarrow> x = y"
  by (simp add: ends_with_def)

lemma ends_with_last2: "ends_with (a @ [x]) [y, z] \<Longrightarrow> x = z"
  by (cases a rule: rev_cases) (auto simp: ends_with_def)

lemma magnitude_k:
  assumes "to_lower x = 107"
  shows "magnitude (d @ [x]) = (d, 10 ^ 3)"
proof -
  have "\<not> ends_with (map to_lower (d @ [x])) (cp ''cr'')"
    using ends_with_last2[of "map to_lower d" "to_lower x" 99 114] assms
    by (auto simp: cp_def)
  moreover have "ends_with (map to_lower (d @ [x])) (cp ''k'')"
    using assms by (simp add: cp_def ends_with_last)
  ultimately show ?thesis by (simp add: magnitude_def Let_def)
qed

lemma magnitude_m:
  assumes "to_lower x = 109"
  shows "magnitude (d @ [x]) = (d, 10 ^ 6)"
proof -
  have "\<not> ends_with (map to_lower (d @ [x])) (cp ''cr'')"
    using ends_with_last2[of "map to_lower d" "to_lower x" 99 114] assms
    by (auto simp: cp_def)
  moreover have "\<not> ends_with (map to_lower (d @ [x])) (cp ''k'')"
    using assms by (simp add: cp_def ends_with_last)
  moreover have "ends_with (map to_lower (d @ [x])) (cp ''m'')"
    using assms by (simp add: cp_def ends_with_last)
  ultimately show ?thesis by (simp add: magnitude_def Let_def)
qed

lemma magnitude_cr:
  assumes "to_lower x = 99" and "to_lower y = 114"
  shows "magnitude (d @ [x, y]) = (d, 10 ^ 7)"
proof -
  have "ends_with (map to_lower (d @ [x, y])) (cp ''cr'')"
    using assms ends_with_append[of "map to_lower d" "[99, 114]"] by (simp add: cp_def)
  then show ?thesis by (simp add: magnitude_def Let_def)
qed

lemma magnitude_sound:
  assumes "(suf, m) \<in> {([], 1), (cp ''K'', 10 ^ 3), (cp ''k'', 10 ^ 3), (cp ''M'', 10 ^ 6),
                        (cp ''m'', 10 ^ 6), (cp ''Cr'', 10 ^ 7), (cp ''cr'', 10 ^ 7),
                        (cp ''CR'', 10 ^ 7), (cp ''cR'', 10 ^ 7)}"
    and "d \<noteq> []" and "is_digit (last d) \<or> last d = 46"
  shows "magnitude (d @ suf) = (d, m)"
  using assms(1)
  by (auto simp: cp_def magnitude_plain[OF assms(2,3)] magnitude_k magnitude_m magnitude_cr
      to_lower_def)

lemma magnitude_complete:
  assumes "magnitude t = (d, m)"
  shows "\<exists>suf. t = d @ suf \<and>
     (suf, m) \<in> {([], 1), (cp ''K'', 10 ^ 3), (cp ''k'', 10 ^ 3), (cp ''M'', 10 ^ 6),
                  (cp ''m'', 10 ^ 6), (cp ''Cr'', 10 ^ 7), (cp ''cr'', 10 ^ 7),
                  (cp ''CR'', 10 ^ 7), (cp ''cR'', 10 ^ 7)}"
proof -
  consider (cr) "ends_with (map to_lower t) (cp ''cr'')"
    | (k) "\<not> ends_with (map to_lower t) (cp ''cr'')" "ends_with (map to_lower t) (cp ''k'')"
    | (m) "\<not> ends_with (map to_lower t) (cp ''cr'')" "\<not> ends_with (map to_lower t) (cp ''k'')"
          "ends_with (map to_lower t) (cp ''m'')"
    | (none) "\<not> ends_with (map to_lower t) (cp ''cr'')" "\<not> ends_with (map to_lower t) (cp ''k'')"
          "\<not> ends_with (map to_lower t) (cp ''m'')"
    by blast
  then show ?thesis
  proof cases
    case cr
    from ends_with_split[OF cr] have s: "t = take (length t - 2) t @ drop (length t - 2) t"
      and l: "map to_lower (drop (length t - 2) t) = [99, 114]"
      by (simp_all add: cp_def numeral_2_eq_2)
    from l obtain a b where ab: "drop (length t - 2) t = [a, b]" "to_lower a = 99" "to_lower b = 114"
      by (auto simp: map_eq_Cons_conv)
    from cr assms have dm: "d = take (length t - 2) t" "m = 10 ^ 7"
      by (simp_all add: magnitude_def Let_def)
    have "t = d @ [a, b]" using ab(1) dm(1) by (metis append_take_drop_id)
    moreover have "([a, b], m) \<in> {(cp ''Cr'', 10 ^ 7), (cp ''cr'', 10 ^ 7),
                  (cp ''CR'', 10 ^ 7), (cp ''cR'', 10 ^ 7)}"
      using ab(2,3) dm(2) by (auto simp: to_lower_eq cp_def)
    ultimately show ?thesis by blast
  next
    case k
    from ends_with_split[OF k(2)] have s: "t = take (length t - 1) t @ drop (length t - 1) t"
      and l: "map to_lower (drop (length t - 1) t) = [107]"
      by (simp_all add: cp_def)
    from l obtain a where ab: "drop (length t - 1) t = [a]" "to_lower a = 107"
      by (auto simp: map_eq_Cons_conv)
    from k assms have dm: "d = take (length t - 1) t" "m = 10 ^ 3"
      by (simp_all add: magnitude_def Let_def)
    have "t = d @ [a]" using ab(1) dm(1) by (metis append_take_drop_id)
    moreover have "([a], m) \<in> {(cp ''K'', 10 ^ 3), (cp ''k'', 10 ^ 3)}"
      using ab(2) dm(2) by (auto simp: to_lower_eq cp_def)
    ultimately show ?thesis by blast
  next
    case m
    from ends_with_split[OF m(3)] have s: "t = take (length t - 1) t @ drop (length t - 1) t"
      and l: "map to_lower (drop (length t - 1) t) = [109]"
      by (simp_all add: cp_def)
    from l obtain a where ab: "drop (length t - 1) t = [a]" "to_lower a = 109"
      by (auto simp: map_eq_Cons_conv)
    from m assms have dm: "d = take (length t - 1) t" "m = 10 ^ 6"
      by (simp_all add: magnitude_def Let_def)
    have "t = d @ [a]" using ab(1) dm(1) by (metis append_take_drop_id)
    moreover have "([a], m) \<in> {(cp ''M'', 10 ^ 6), (cp ''m'', 10 ^ 6)}"
      using ab(2) dm(2) by (auto simp: to_lower_eq cp_def)
    ultimately show ?thesis by blast
  next
    case none
    with assms have "d = t" "m = 1" by (simp_all add: magnitude_def Let_def)
    then show ?thesis by simp
  qed
qed

lemma strip_drop:
  "is_currency_symbol c \<or> c = 44 \<Longrightarrow>
     strip_symbols is_currency_symbol (a @ c # b) = strip_symbols is_currency_symbol (a @ b)"
  by (auto simp: strip_symbols_def)

lemma strip_plain:
  assumes "\<forall>c\<in>set t. is_digit c \<or> c = 46 \<or> c \<in> {75, 107, 77, 109, 67, 99, 82, 114}"
  shows "strip_symbols is_currency_symbol t = t"
  unfolding strip_symbols_def filter_id_conv
  using assms by (auto simp: is_currency_symbol_def is_digit_def)

lemma suffix_chars:
  assumes "(suf, m) \<in> {([], 1::rat), (cp ''K'', 10 ^ 3), (cp ''k'', 10 ^ 3), (cp ''M'', 10 ^ 6),
                        (cp ''m'', 10 ^ 6), (cp ''Cr'', 10 ^ 7), (cp ''cr'', 10 ^ 7),
                        (cp ''CR'', 10 ^ 7), (cp ''cR'', 10 ^ 7)}"
  shows "\<forall>c\<in>set suf. c \<in> {75, 107, 77, 109, 67, 99, 82, 114}"
  using assms by (auto simp: cp_def)

lemma clean_number_numeral:
  assumes p: "parse_decimal d = Some x"
    and c: "\<forall>c\<in>set d. is_digit c \<or> c = 46"
    and l: "is_digit (last d) \<or> last d = 46"
    and s: "(suf, m) \<in> {([], 1), (cp ''K'', 10 ^ 3), (cp ''k'', 10 ^ 3), (cp ''M'', 10 ^ 6),
                        (cp ''m'', 10 ^ 6), (cp ''Cr'', 10 ^ 7), (cp ''cr'', 10 ^ 7),
                        (cp ''CR'', 10 ^ 7), (cp ''cR'', 10 ^ 7)}"
  shows "clean_number is_currency_symbol (d @ suf) = Some (x * m)"
proof -
  have ne: "d \<noteq> []" using p by (auto simp: parse_decimal_def)
  have "strip_symbols is_currency_symbol (d @ suf) = d @ suf"
    using c suffix_chars[OF s] by (intro strip_plain) auto
  moreover have "magnitude (d @ suf) = (d, m)"
    by (rule magnitude_sound[OF s ne l])
  ultimately show ?thesis using p by (simp add: clean_number_def)
qed

lemma sum_reports_Cons: "sum_reports (r # rs) = add_counters r (sum_reports rs)"
  by (simp add: sum_reports_def)

lemma unparseable_number_counted:
  assumes "clean_number (currency_symbol cl) s = None" and "schema name = NumberType"
  shows "item_report (clean_item cl schema ((name, s) # item)) =
     (item_report (clean_item cl schema item))
       \<lparr>unparseable_numbers := Suc (unparseable_numbers (item_report (clean_item cl schema item)))\<rparr>"
  using assms
  by (simp add: item_report_def clean_item_def sum_reports_Cons clean_number_field_def
      add_counters_def zero_counters_def)

lemma clean_number_whole:
  assumes "list_all is_digit ds" and "ds \<noteq> []"
    and "(suf, m) \<in> {([], 1), (cp ''K'', 10 ^ 3), (cp ''k'', 10 ^ 3), (cp ''M'', 10 ^ 6),
                        (cp ''m'', 10 ^ 6), (cp ''Cr'', 10 ^ 7), (cp ''cr'', 10 ^ 7),
                        (cp ''CR'', 10 ^ 7), (cp ''cR'', 10 ^ 7)}"
  shows "clean_number is_currency_symbol (ds @ suf) = Some (of_nat (digits_value ds) * m)"
proof (rule clean_number_numeral[OF parse_decimal_whole[OF assms(1,2)] _ _ assms(3)])
  show "\<forall>c\<in>set ds. is_digit c \<or> c = 46" using assms(1) by (simp add: list_all_iff)
  show "is_digit (last ds) \<or> last ds = 46"
    using assms(1,2) by (simp add: list_all_iff)
qed

lemma clean_number_point:
  assumes "list_all is_digit ds" and "list_all is_digit fs" and "ds \<noteq> [] \<or> fs \<noteq> []"
    and "(suf, m) \<in> {([], 1), (cp ''K'', 10 ^ 3), (cp ''k'', 10 ^ 3), (cp ''M'', 10 ^ 6),
                        (cp ''m'', 10 ^ 6), (cp ''Cr'', 10 ^ 7), (cp ''cr'', 10 ^ 7),
                        (cp ''CR'', 10 ^ 7), (cp ''cR'', 10 ^ 7)}"
  shows "clean_number is_currency_symbol (ds @ 46 # fs @ suf) =
     Some ((of_nat (digits_value ds) + of_nat (digits_value fs) / 10 ^ length fs) * m)"
proof -
  have "clean_number is_currency_symbol ((ds @ 46 # fs) @ suf) =
     Some ((of_nat (digits_value ds) + of_nat (digits_value fs) / 10 ^ length fs) * m)"
  proof (rule clean_number_numeral[OF parse_decimal_point[OF assms(1,2,3)] _ _ assms(4)])
    show "\<forall>c\<in>set (ds @ 46 # fs). is_digit c \<or> c = 46"
      using assms(1,2) by (auto simp: list_all_iff)
    show "is_digit (last (ds @ 46 # fs)) \<or> last (ds @ 46 # fs) = 46"
      using assms(2) by (cases fs rule: rev_cases) (auto simp: list_all_iff)
  qed
  then show ?thesis by simp
qed

lemma clean_number_complete:
  assumes "clean_number is_currency_symbol s = Some v"
  shows "\<exists>ds fs suf m. list_all is_digit ds \<and> list_all is_digit fs
      \<and> (suf, m) \<in> {([], 1), (cp ''K'', 10 ^ 3), (cp ''k'', 10 ^ 3), (cp ''M'', 10 ^ 6),
                       (cp ''m'', 10 ^ 6), (cp ''Cr'', 10 ^ 7), (cp ''cr'', 10 ^ 7),
                       (cp ''CR'', 10 ^ 7), (cp ''cR'', 10 ^ 7)}
      \<and> ((ds \<noteq> [] \<and> filter (\<lambda>c. \<not> is_currency_symbol c \<and> c \<noteq> 44) s = ds @ suf
            \<and> v = of_nat (digits_value ds) * m)
         \<or> ((ds \<noteq> [] \<or> fs \<noteq> [])
            \<and> filter (\<lambda>c. \<not> is_currency_symbol c \<and> c \<noteq> 44) s = ds @ 46 # fs @ suf
            \<and> v = (of_nat (digits_value ds) + of_nat (digits_value fs) / 10 ^ length fs) * m))"
proof -
  let ?t = "filter (\<lambda>c. \<not> is_currency_symbol c \<and> c \<noteq> 44) s"
  obtain d m where dm: "magnitude ?t = (d, m)" by (cases "magnitude ?t")
  with assms obtain x where x: "parse_decimal d = Some x" and v: "v = x * m"
    by (auto simp: clean_number_def strip_symbols_def)
  from magnitude_complete[OF dm] obtain suf where t: "?t = d @ suf"
    and s: "(suf, m) \<in> {([], 1), (cp ''K'', 10 ^ 3), (cp ''k'', 10 ^ 3), (cp ''M'', 10 ^ 6),
                       (cp ''m'', 10 ^ 6), (cp ''Cr'', 10 ^ 7), (cp ''cr'', 10 ^ 7),
                       (cp ''CR'', 10 ^ 7), (cp ''cR'', 10 ^ 7)}"
    by blast
  from parse_decimal_Some[OF x] show ?thesis
  proof
    assume a: "list_all is_digit d \<and> d \<noteq> [] \<and> x = of_nat (digits_value d)"
    have "list_all is_digit d \<and> list_all is_digit [] \<and> (suf, m) \<in> {([], 1), (cp ''K'', 10 ^ 3), (cp ''k'', 10 ^ 3), (cp ''M'', 10 ^ 6),
                       (cp ''m'', 10 ^ 6), (cp ''Cr'', 10 ^ 7), (cp ''cr'', 10 ^ 7),
                       (cp ''CR'', 10 ^ 7), (cp ''cR'', 10 ^ 7)}
      \<and> ((d \<noteq> [] \<and> ?t = d @ suf \<and> v = of_nat (digits_value d) * m)
         \<or> ((d \<noteq> [] \<or> [] \<noteq> [])
            \<and> ?t = d @ 46 # [] @ suf
            \<and> v = (of_nat (digits_value d) + of_nat (digits_value []) / 10 ^ length ([]::nat list)) * m))"
      using a t s v by simp
    then show ?thesis by (intro exI[of _ d] exI[of _ "[]"] exI[of _ suf] exI[of _ m])
  next
    assume "\<exists>ds fs. d = ds @ 46 # fs \<and> list_all is_digit ds \<and> list_all is_digit fs
          \<and> (ds \<noteq> [] \<or> fs \<noteq> [])
          \<and> x = of_nat (digits_value ds) + of_nat (digits_value fs) / 10 ^ length fs"
    then obtain ds fs where b: "d = ds @ 46 # fs" "list_all is_digit ds" "list_all is_digit fs"
      "ds \<noteq> [] \<or> fs \<noteq> []"
      "x = of_nat (digits_value ds) + of_nat (digits_value fs) / 10 ^ length fs"
      by blast
    have "list_all is_digit ds \<and> list_all is_digit fs \<and> (suf, m) \<in> {([], 1), (cp ''K'', 10 ^ 3), (cp ''k'', 10 ^ 3), (cp ''M'', 10 ^ 6),
                       (cp ''m'', 10 ^ 6), (cp ''Cr'', 10 ^ 7), (cp ''cr'', 10 ^ 7),
                       (cp ''CR'', 10 ^ 7), (cp ''cR'', 10 ^ 7)}
      \<and> ((ds \<noteq> [] \<and> ?t = ds @ suf \<and> v = of_nat (digits_value ds) * m)
         \<or> ((ds \<noteq> [] \<or> fs \<noteq> [])
            \<and> ?t = ds @ 46 # fs @ suf
            \<and> v = (of_nat (digits_value ds) + of_nat (digits_value fs) / 10 ^ length fs) * m))"
      using b t s v by simp
    then show ?thesis by (intro exI[of _ ds] exI[of _ fs] exI[of _ suf] exI[of _ m])
  qed
qed

lemma clean_number_examples:
  "clean_number is_currency_symbol (rupee # cp ''1.2Cr'') = Some 12000000"
  "clean_number is_currency_symbol (cp ''3.5K'') = Some 3500"
  "clean_number is_currency_symbol (cp ''1,234.5'') = Some (2469 / 2)"
  "clean_number is_currency_symbol (cp ''Phase 2'') = None"
  "clean_number is_currency_symbol (cp ''12/05/2024'') = None"
  "clean_number is_currency_symbol (cp ''abc'') = None"
  by (simp_all add: clean_number_def strip_symbols_def is_currency_symbol_def rupee_def
      cp_def magnitude_def ends_with_def to_lower_def parse_decimal_def is_digit_def
      digits_value_def)

text \<open>
  C6. Number cleaning removes currency symbols (the rupee sign among them) and commas
  wherever they stand. A decimal numeral (digits, or digits with a point), alone or
  followed by K, M or Cr in either case, converts to its value times 1, 1000, 1000000 or
  10000000, the value of the digits being their decimal reading. Nothing else converts:
  a string converts only if what remains of it is such a text. Every string that does not
  convert is answered as an unparseable field that keeps the original string, and adds
  exactly one to \<open>unparseable_numbers\<close> and nothing to the other counters. The rupee sign
  followed by \<open>1.2Cr\<close> gives 12000000 and \<open>3.5K\<close> gives 3500; \<open>Phase 2\<close>, a date and
  \<open>abc\<close> do not convert.
\<close>

theorem clean_number_spec:
  "is_currency_symbol rupee
   \<and> (\<forall>a b c. is_currency_symbol c \<or> c = 44 \<longrightarrow>
         clean_number is_currency_symbol (a @ c # b) = clean_number is_currency_symbol (a @ b))
   \<and> (\<forall>ds fs suf m.
         list_all is_digit ds \<and> list_all is_digit fs
         \<and> (suf, m) \<in> {([], 1), (cp ''K'', 10 ^ 3), (cp ''k'', 10 ^ 3), (cp ''M'', 10 ^ 6),
                          (cp ''m'', 10 ^ 6), (cp ''Cr'', 10 ^ 7), (cp ''cr'', 10 ^ 7),
                          (cp ''CR'', 10 ^ 7), (cp ''cR'', 10 ^ 7)}
         \<longrightarrow> (ds \<noteq> [] \<longrightarrow>
                clean_number is_currency_symbol (ds @ suf) = Some (of_nat (digits_value ds) * m))
           \<and> (ds \<noteq> [] \<or> fs \<noteq> [] \<longrightarrow>
                clean_number is_currency_symbol (ds @ 46 # fs @ suf) =
                  Some ((of_nat (digits_value ds)
                         + of_nat (digits_value fs) / 10 ^ length fs) * m)))
   \<and> (\<forall>c. is_digit c \<longleftrightarrow> 48 \<le> c \<and> c \<le> 57)
   \<and> digits_value [] = 0
   \<and> (\<forall>ds c. digits_value (ds @ [c]) = 10 * digits_value ds + (c - 48))
   \<and> (\<forall>v. clean_number is_currency_symbol s = Some v \<longrightarrow>
         (\<exists>ds fs suf m. list_all is_digit ds \<and> list_all is_digit fs
            \<and> (suf, m) \<in> {([], 1), (cp ''K'', 10 ^ 3), (cp ''k'', 10 ^ 3), (cp ''M'', 10 ^ 6),
                             (cp ''m'', 10 ^ 6), (cp ''Cr'', 10 ^ 7), (cp ''cr'', 10 ^ 7),
                             (cp ''CR'', 10 ^ 7), (cp ''cR'', 10 ^ 7)}
            \<and> ((ds \<noteq> []
                  \<and> filter (\<lambda>c. \<not> is_currency_symbol c \<and> c \<noteq> 44) s = ds @ suf
                  \<and> v = of_nat (digits_value ds) * m)
               \<or> ((ds \<noteq> [] \<or> fs \<noteq> [])
                  \<and> filter (\<lambda>c. \<not> is_currency_symbol c \<and> c \<noteq> 44) s = ds @ 46 # fs @ suf
                  \<and> v = (of_nat (digits_value ds)
                         + of_nat (digits_value fs) / 10 ^ length fs) * m))))
   \<and> (clean_number is_currency_symbol s = None \<longrightarrow>
           clean_number_field is_currency_symbol s = (TextValue s, Unparseable)
         \<and> field_outcome NumberType (snd (clean_number_field is_currency_symbol s)) =
             \<lparr>total_items = 0, missing_values = 0, unparseable_dates = 0,
              unparseable_numbers = 1, normalization_events = 0\<rparr>
         \<and> (\<forall>cl schema name item.
               currency_symbol cl = is_currency_symbol \<and> schema name = NumberType \<longrightarrow>
               item_report (clean_item cl schema ((name, s) # item)) =
                 (item_report (clean_item cl schema item))
                   \<lparr>unparseable_numbers :=
                      Suc (unparseable_numbers (item_report (clean_item cl schema item)))\<rparr>))
   \<and> clean_number is_currency_symbol (rupee # cp ''1.2Cr'') = Some 12000000
   \<and> clean_number is_currency_symbol (cp ''3.5K'') = Some 3500
   \<and> clean_number is_currency_symbol (cp ''1,234.5'') = Some (2469 / 2)
   \<and> clean_number is_currency_symbol (cp ''Phase 2'') = None
   \<and> clean_number is_currency_symbol (cp ''12/05/2024'') = None
   \<and> clean_number is_currency_symbol (cp ''abc'') = None"
proof (intro conjI)
  show "is_currency_symbol rupee" by (simp add: is_currency_symbol_def rupee_def)
  show "\<forall>a b c. is_currency_symbol c \<or> c = 44 \<longrightarrow>
         clean_number is_currency_symbol (a @ c # b) = clean_number is_currency_symbol (a @ b)"
    by (simp add: clean_number_def strip_drop)
  show "\<forall>ds fs suf m.
         list_all is_digit ds \<and> list_all is_digit fs
         \<and> (suf, m) \<in> {([], 1), (cp ''K'', 10 ^ 3), (cp ''k'', 10 ^ 3), (cp ''M'', 10 ^ 6),
                          (cp ''m'', 10 ^ 6), (cp ''Cr'', 10 ^ 7), (cp ''cr'', 10 ^ 7),
                          (cp ''CR'', 10 ^ 7), (cp ''cR'', 10 ^ 7)}
         \<longrightarrow> (ds \<noteq> [] \<longrightarrow>
                clean_number is_currency_symbol (ds @ suf) = Some (of_nat (digits_value ds) * m))
           \<and> (ds \<noteq> [] \<or> fs \<noteq> [] \<longrightarrow>
                clean_number is_currency_symbol (ds @ 46 # fs @ suf) =
                  Some ((of_nat (digits_value ds)
                         + of_nat (digits_value fs) / 10 ^ length fs) * m))"
  proof (intro allI impI conjI)
    fix ds fs :: pystr and suf :: pystr and m :: rat
    assume a: "list_all is_digit ds \<and> list_all is_digit fs
         \<and> (suf, m) \<in> {([], 1), (cp ''K'', 10 ^ 3), (cp ''k'', 10 ^ 3), (cp ''M'', 10 ^ 6),
                          (cp ''m'', 10 ^ 6), (cp ''Cr'', 10 ^ 7), (cp ''cr'', 10 ^ 7),
                          (cp ''CR'', 10 ^ 7), (cp ''cR'', 10 ^ 7)}"
    have d: "list_all is_digit ds" using a by (rule conjunct1)
    have f: "list_all is_digit fs" using a by (rule conjunct1[OF conjunct2])
    have s: "(suf, m) \<in> {([], 1), (cp ''K'', 10 ^ 3), (cp ''k'', 10 ^ 3), (cp ''M'', 10 ^ 6),
                          (cp ''m'', 10 ^ 6), (cp ''Cr'', 10 ^ 7), (cp ''cr'', 10 ^ 7),
                          (cp ''CR'', 10 ^ 7), (cp ''cR'', 10 ^ 7)}"
      using a by (rule conjunct2[OF conjunct2])
    show "clean_number is_currency_symbol (ds @ suf) = Some (of_nat (digits_value ds) * m)"
      if "ds \<noteq> []"
      by (rule clean_number_whole[OF d that s])
    show "clean_number is_currency_symbol (ds @ 46 # fs @ suf) =
                  Some ((of_nat (digits_value ds)
                         + of_nat (digits_value fs) / 10 ^ length fs) * m)"
      if "ds \<noteq> [] \<or> fs \<noteq> []"
      by (rule clean_number_point[OF d f that s])
  qed
  show "\<forall>c. is_digit c \<longleftrightarrow> 48 \<le> c \<and> c \<le> 57" by (simp add: is_digit_def)
  show "digits_value [] = 0" by (simp add: digits_value_def)
  show "\<forall>ds c. digits_value (ds @ [c]) = 10 * digits_value ds + (c - 48)"
    by (simp add: digits_value_snoc)
  show "\<forall>v. clean_number is_currency_symbol s = Some v \<longrightarrow>
         (\<exists>ds fs suf m. list_all is_digit ds \<and> list_all is_digit fs
            \<and> (suf, m) \<in> {([], 1), (cp ''K'', 10 ^ 3), (cp ''k'', 10 ^ 3), (cp ''M'', 10 ^ 6),
                             (cp ''m'', 10 ^ 6), (cp ''Cr'', 10 ^ 7), (cp ''cr'', 10 ^ 7),
                             (cp ''CR'', 10 ^ 7), (cp ''cR'', 10 ^ 7)}
            \<and> ((ds \<noteq> []
                  \<and> filter (\<lambda>c. \<not> is_currency_symbol c \<and> c \<noteq> 44) s = ds @ suf
                  \<and> v = of_nat (digits_value ds) * m)
               \<or> ((ds \<noteq> [] \<or> fs \<noteq> [])
                  \<and> filter (\<lambda>c. \<not> is_currency_symbol c \<and> c \<noteq> 44) s = ds @ 46 # fs @ suf
                  \<and> v = (of_nat (digits_value ds)
                         + of_nat (digits_value fs) / 10 ^ length fs) * m)))"
    by (intro allI impI) (rule clean_number_complete)
  show "clean_number is_currency_symbol s = None \<longrightarrow>
           clean_number_field is_currency_symbol s = (TextValue s, Unparseable)
         \<and> field_outcome NumberType (snd (clean_number_field is_currency_symbol s)) =
             \<lparr>total_items = 0, missing_values = 0, unparseable_dates = 0,
              unparseable_numbers = 1, normalization_events = 0\<rparr>
         \<and> (\<forall>cl schema name item.
               currency_symbol cl = is_currency_symbol \<and> schema name = NumberType \<longrightarrow>
               item_report (clean_item cl schema ((name, s) # item)) =
                 (item_report (clean_item cl schema item))
                   \<lparr>unparseable_numbers :=
                      Suc (unparseable_numbers (item_report (clean_item cl schema item)))\<rparr>)"
  proof
    assume n: "clean_number is_currency_symbol s = None"
    then have f: "clean_number_field is_currency_symbol s = (TextValue s, Unparseable)"
      by (simp add: clean_number_field_def)
    show "clean_number_field is_currency_symbol s = (TextValue s, Unparseable)
         \<and> field_outcome NumberType (snd (clean_number_field is_currency_symbol s)) =
             \<lparr>total_items = 0, missing_values = 0, unparseable_dates = 0,
              unparseable_numbers = 1, normalization_events = 0\<rparr>
         \<and> (\<forall>cl schema name item.
               currency_symbol cl = is_currency_symbol \<and> schema name = NumberType \<longrightarrow>
               item_report (clean_item cl schema ((name, s) # item)) =
                 (item_report (clean_item cl schema item))
                   \<lparr>unparseable_numbers :=
                      Suc (unparseable_numbers (item_report (clean_item cl schema item)))\<rparr>)"
      using f n by (auto simp: zero_counters_def intro: unparseable_number_counted)
  qed
qed (rule clean_number_examples)+

theorem clean_number_spec_witness:
  "clean_number is_currency_symbol (rupee # cp ''1.2Cr'') = Some 12000000
   \<and> clean_number is_currency_symbol (cp ''3.5K'') = Some 3500
   \<and> clean_number is_currency_symbol (cp ''1,234.5'') = Some (2469 / 2)
   \<and> clean_number is_currency_symbol (cp ''n/a'') = None
   \<and> clean_number_field is_currency_symbol (cp ''n/a'') = (TextValue (cp ''n/a''), Unparseable)
   \<and> list_all is_digit (cp ''42'') \<and> cp ''42'' \<noteq> []
   \<and> clean_number is_currency_symbol (cp ''42'' @ cp ''M'') = Some (of_nat (digits_value (cp ''42'')) * 10 ^ 6)
   \<and> digits_value (cp ''42'') = 42"
proof -
  note w = clean_number_spec[of "cp ''n/a''"]
  note x = w[THEN conjunct2, THEN conjunct2, THEN conjunct2, THEN conjunct2, THEN conjunct2,
        THEN conjunct2, THEN conjunct2, THEN conjunct2]
  have e1: "clean_number is_currency_symbol (rupee # cp ''1.2Cr'') = Some 12000000"
    by (rule x[THEN conjunct1])
  have e2: "clean_number is_currency_symbol (cp ''3.5K'') = Some 3500"
    by (rule x[THEN conjunct2, THEN conjunct1])
  have e3: "clean_number is_currency_symbol (cp ''1,234.5'') = Some (2469 / 2)"
    by (rule x[THEN conjunct2, THEN conjunct2, THEN conjunct1])
  have n: "clean_number is_currency_symbol (cp ''n/a'') = None"
    by (simp add: clean_number_def strip_symbols_def is_currency_symbol_def
      cp_def magnitude_def ends_with_def to_lower_def parse_decimal_def is_digit_def)
  have f: "clean_number_field is_currency_symbol (cp ''n/a'') = (TextValue (cp ''n/a''), Unparseable)"
    using w[THEN conjunct2, THEN conjunct2, THEN conjunct2, THEN conjunct2, THEN conjunct2,
        THEN conjunct2, THEN conjunct2, THEN conjunct1, THEN mp, OF n]
    by (rule conjunct1)
  have d: "list_all is_digit (cp ''42'')" "cp ''42'' \<noteq> []"
    by (simp_all add: cp_def is_digit_def)
  have m: "(cp ''M'', 10 ^ 6) \<in> {([], 1::rat), (cp ''K'', 10 ^ 3), (cp ''k'', 10 ^ 3), (cp ''M'', 10 ^ 6),
                          (cp ''m'', 10 ^ 6), (cp ''Cr'', 10 ^ 7), (cp ''cr'', 10 ^ 7),
                          (cp ''CR'', 10 ^ 7), (cp ''cR'', 10 ^ 7)}"
    by simp
  have c: "clean_number is_currency_symbol (cp ''42'' @ cp ''M'') = Some (of_nat (digits_value (cp ''42'')) * 10 ^ 6)"
    using w[THEN conjunct2, THEN conjunct2, THEN conjunct1, rule_format, of "cp ''42''" "[]"
        "cp ''M''" "10 ^ 6"] d m
    by simp
  have v: "digits_value (cp ''42'') = 42"
    by (simp add: digits_value_def cp_def)
  from e1 e2 e3 n f d c v show ?thesis by (intro conjI)
qed


section \<open>Properties of the quality report\<close>

lemma add_counters_zero [simp]:
  "add_counters zero_counters a = a" "add_counters a zero_counters = a"
  by (simp_all add: add_counters_def zero_counters_def)

lemma add_counters_assoc:
  "add_counters (add_counters a b) c = add_counters a (add_counters b c)"
  by (simp add: add_counters_def)

lemma add_counters_commute: "add_counters a b = add_counters b a"
  by (simp add: add_counters_def)

lemma sum_reports_append:
  "sum_reports (xs @ ys) = add_counters (sum_reports xs) (sum_reports ys)"
  by (induction xs) (simp_all add: sum_reports_def add_counters_assoc)

lemma sum_reports_fields:
  "sum_reports rs =
     \<lparr>total_items = sum_list (map total_items rs),
      missing_values = sum_list (map missing_values rs),
      unparseable_dates = sum_list (map unparseable_dates rs),
      unparseable_numbers = sum_list (map unparseable_numbers rs),
      normalization_events = sum_list (map normalization_events rs)\<rparr>"
  by (induction rs) (simp_all add: sum_reports_def add_counters_def zero_counters_def)

lemma sum_list_mset_cong:
  fixes f :: "'a \<Rightarrow> nat"
  assumes "mset xs = mset ys"
  shows "sum_list (map f xs) = sum_list (map f ys)"
proof -
  have "sum_list (map f xs) = sum_mset (image_mset f (mset xs))"
    by (simp add: sum_mset_sum_list[symmetric])
  also have "\<dots> = sum_mset (image_mset f (mset ys))" by (simp add: assms)
  also have "\<dots> = sum_list (map f ys)" by (simp add: sum_mset_sum_list[symmetric])
  finally show ?thesis .
qed

lemma sum_reports_mset:
  assumes "mset rs = mset rs'"
  shows "sum_reports rs = sum_reports rs'"
  unfolding sum_reports_fields
  using sum_list_mset_cong[OF assms] by simp

lemma clean_report_append:
  "snd (clean cl schema (xs @ ys)) =
     add_counters (snd (clean cl schema xs)) (snd (clean cl schema ys))"
  by (simp add: clean_def sum_reports_append)

lemma clean_report_concat:
  "snd (clean cl schema (concat parts)) =
     sum_reports (map (\<lambda>part. snd (clean cl schema part)) parts)"
proof (induction parts)
  case Nil
  then show ?case by (simp add: clean_def sum_reports_def)
next
  case (Cons p ps)
  then show ?case by (simp add: clean_report_append sum_reports_def)
qed

lemma field_outcome_counts:
  "total_items (field_outcome t p) = 0"
  "missing_values (field_outcome t p) = (if p = Missing then 1 else 0)"
  "unparseable_dates (field_outcome t p) = (if t = DateType \<and> p = Unparseable then 1 else 0)"
  "unparseable_numbers (field_outcome t p) =
     (if t = NumberType \<and> p = Unparseable then 1 else 0)"
  "normalization_events (field_outcome t p) = (if p = Normalized then 1 else 0)"
  by (cases t; cases p; simp add: zero_counters_def)+

lemma sum_list_count:
  "sum_list (map (\<lambda>x. if P x then 1 else 0) xs) = length (filter P xs)"
  by (induction xs) simp_all

lemma sum_list_length_concat:
  "sum_list (map (\<lambda>x. length (filter P (g x))) xs) = length (filter P (concat (map g xs)))"
  by (induction xs) simp_all

lemma item_report_counts:
  "item_report (clean_item cl schema item) =
     \<lparr>total_items = 1,
      missing_values =
        length (filter (\<lambda>(t, p). p = Missing)
          (map (\<lambda>(name, v). (schema name, snd (clean_field cl (schema name) v))) item)),
      unparseable_dates =
        length (filter (\<lambda>(t, p). t = DateType \<and> p = Unparseable)
          (map (\<lambda>(name, v). (schema name, snd (clean_field cl (schema name) v))) item)),
      unparseable_numbers =
        length (filter (\<lambda>(t, p). t = NumberType \<and> p = Unparseable)
          (map (\<lambda>(name, v). (schema name, snd (clean_field cl (schema name) v))) item)),
      normalization_events =
        length (filter (\<lambda>(t, p). p = Normalized)
          (map (\<lambda>(name, v). (schema name, snd (clean_field cl (schema name) v))) item))\<rparr>"
proof -
  let ?f = "\<lambda>(name, v). (schema name, snd (clean_field cl (schema name) v))"
  have m: "map (\<lambda>(name, t, v, p). field_outcome t p) (clean_item cl schema item)
      = map (\<lambda>(t, p). field_outcome t p) (map ?f item)"
    by (simp add: clean_item_def case_prod_unfold)
  have c: "sum_list (map (\<lambda>x. h (case x of (t, p) \<Rightarrow> field_outcome t p)) ys)
      = sum_list (map (\<lambda>(t, p). h (field_outcome t p)) ys)" for h :: "quality_counters \<Rightarrow> nat" and ys
    by (simp add: case_prod_unfold)
  show ?thesis
    unfolding item_report_def m sum_reports_fields
    by (simp add: add_counters_def zero_counters_def comp_def c field_outcome_counts
        sum_list_count[symmetric] case_prod_unfold)
qed

lemma clean_report_counts:
  "snd (clean cl schema items) =
     \<lparr>total_items = length items,
      missing_values =
        length (filter (\<lambda>(t, p). p = Missing)
          (concat (map (map (\<lambda>(name, v). (schema name, snd (clean_field cl (schema name) v))))
                       items))),
      unparseable_dates =
        length (filter (\<lambda>(t, p). t = DateType \<and> p = Unparseable)
          (concat (map (map (\<lambda>(name, v). (schema name, snd (clean_field cl (schema name) v))))
                       items))),
      unparseable_numbers =
        length (filter (\<lambda>(t, p). t = NumberType \<and> p = Unparseable)
          (concat (map (map (\<lambda>(name, v). (schema name, snd (clean_field cl (schema name) v))))
                       items))),
      normalization_events =
        length (filter (\<lambda>(t, p). p = Normalized)
          (concat (map (map (\<lambda>(name, v). (schema name, snd (clean_field cl (schema name) v))))
                       items)))\<rparr>"
proof -
  let ?r = "\<lambda>item. item_report (clean_item cl schema item)"
  have r: "snd (clean cl schema items) = sum_reports (map ?r items)"
    by (simp add: clean_def comp_def)
  have t: "sum_list (map (\<lambda>item. total_items (?r item)) items) = length items"
    by (induction items) (simp_all add: item_report_counts)
  have m: "sum_list (map (\<lambda>item. missing_values (?r item)) items) =
      length (filter (\<lambda>(t, p). p = Missing)
          (concat (map (map (\<lambda>(name, v). (schema name, snd (clean_field cl (schema name) v))))
                       items)))"
    by (simp only: item_report_counts quality_counters.select_convs sum_list_length_concat)
  have d: "sum_list (map (\<lambda>item. unparseable_dates (?r item)) items) =
      length (filter (\<lambda>(t, p). t = DateType \<and> p = Unparseable)
          (concat (map (map (\<lambda>(name, v). (schema name, snd (clean_field cl (schema name) v))))
                       items)))"
    by (simp only: item_report_counts quality_counters.select_convs sum_list_length_concat)
  have n: "sum_list (map (\<lambda>item. unparseable_numbers (?r item)) items) =
      length (filter (\<lambda>(t, p). t = NumberType \<and> p = Unparseable)
          (concat (map (map (\<lambda>(name, v). (schema name, snd (clean_field cl (schema name) v))))
                       items)))"
    by (simp only: item_report_counts quality_counters.select_convs sum_list_length_concat)
  have e: "sum_list (map (\<lambda>item. normalization_events (?r item)) items) =
      length (filter (\<lambda>(t, p). p = Normalized)
          (concat (map (map (\<lambda>(name, v). (schema name, snd (clean_field cl (schema name) v))))
                       items)))"
    by (simp only: item_report_counts quality_counters.select_convs sum_list_length_concat)
  show ?thesis
    by (simp only: r sum_reports_fields map_map comp_def t m d n e)
qed

text \<open>
  C8. The quality counters of a cleaning run are the sum of the outcomes of the fields:
  \<open>total_items\<close> is the number of items, and each other counter is the number of fields,
  over all the items, with that outcome (a missing value, an unparseable date, an
  unparseable number, a normalization). The sum does not depend on order or grouping: for
  parts taken in any order, the sum of the reports of the parts is the report of cleaning
  all the items at once, and so is the sum of the reports of the items in any order;
  cleaning \<open>xs\<close> and \<open>ys\<close> apart and adding the two reports, either way round, is cleaning
  \<open>xs @ ys\<close>.
\<close>

theorem quality_report_sum_order_independent:
  assumes "mset parts' = mset parts"
  shows "snd (clean cl schema items) =
     \<lparr>total_items = length items,
      missing_values =
        length (filter (\<lambda>(t, p). p = Missing)
          (concat (map (map (\<lambda>(name, v). (schema name, snd (clean_field cl (schema name) v))))
                       items))),
      unparseable_dates =
        length (filter (\<lambda>(t, p). t = DateType \<and> p = Unparseable)
          (concat (map (map (\<lambda>(name, v). (schema name, snd (clean_field cl (schema name) v))))
                       items))),
      unparseable_numbers =
        length (filter (\<lambda>(t, p). t = NumberType \<and> p = Unparseable)
          (concat (map (map (\<lambda>(name, v). (schema name, snd (clean_field cl (schema name) v))))
                       items))),
      normalization_events =
        length (filter (\<lambda>(t, p). p = Normalized)
          (concat (map (map (\<lambda>(name, v). (schema name, snd (clean_field cl (schema name) v))))
                       items)))\<rparr>
    \<and> sum_reports (map (\<lambda>part. snd (clean cl schema part)) parts')
           = snd (clean cl schema (concat parts))
    \<and> (\<forall>rs. mset rs = mset (map item_report (fst (clean cl schema (concat parts)))) \<longrightarrow>
           sum_reports rs = snd (clean cl schema (concat parts)))
    \<and> add_counters (snd (clean cl schema xs)) (snd (clean cl schema ys))
         = snd (clean cl schema (xs @ ys))
    \<and> add_counters (snd (clean cl schema ys)) (snd (clean cl schema xs))
         = snd (clean cl schema (xs @ ys))
    \<and> add_counters a b =
         \<lparr>total_items = total_items a + total_items b,
          missing_values = missing_values a + missing_values b,
          unparseable_dates = unparseable_dates a + unparseable_dates b,
          unparseable_numbers = unparseable_numbers a + unparseable_numbers b,
          normalization_events = normalization_events a + normalization_events b\<rparr>"
proof (intro conjI allI impI)
  show "snd (clean cl schema items) =
     \<lparr>total_items = length items,
      missing_values =
        length (filter (\<lambda>(t, p). p = Missing)
          (concat (map (map (\<lambda>(name, v). (schema name, snd (clean_field cl (schema name) v))))
                       items))),
      unparseable_dates =
        length (filter (\<lambda>(t, p). t = DateType \<and> p = Unparseable)
          (concat (map (map (\<lambda>(name, v). (schema name, snd (clean_field cl (schema name) v))))
                       items))),
      unparseable_numbers =
        length (filter (\<lambda>(t, p). t = NumberType \<and> p = Unparseable)
          (concat (map (map (\<lambda>(name, v). (schema name, snd (clean_field cl (schema name) v))))
                       items))),
      normalization_events =
        length (filter (\<lambda>(t, p). p = Normalized)
          (concat (map (map (\<lambda>(name, v). (schema name, snd (clean_field cl (schema name) v))))
                       items)))\<rparr>"
    by (rule clean_report_counts)
next
  have "mset (map (\<lambda>part. snd (clean cl schema part)) parts')
      = mset (map (\<lambda>part. snd (clean cl schema part)) parts)"
    using assms by (metis mset_map)
  then show "sum_reports (map (\<lambda>part. snd (clean cl schema part)) parts')
           = snd (clean cl schema (concat parts))"
    by (simp add: clean_report_concat sum_reports_mset)
next
  fix rs
  assume "mset rs = mset (map item_report (fst (clean cl schema (concat parts))))"
  then have "sum_reports rs = sum_reports (map item_report (fst (clean cl schema (concat parts))))"
    by (rule sum_reports_mset)
  then show "sum_reports rs = snd (clean cl schema (concat parts))"
    by (simp add: clean_def)
next
  show "add_counters (snd (clean cl schema xs)) (snd (clean cl schema ys))
         = snd (clean cl schema (xs @ ys))"
    by (simp add: clean_report_append)
  then show "add_counters (snd (clean cl schema ys)) (snd (clean cl schema xs))
         = snd (clean cl schema (xs @ ys))"
    by (simp add: add_counters_commute)
next
  show "add_counters a b =
         \<lparr>total_items = total_items a + total_items b,
          missing_values = missing_values a + missing_values b,
          unparseable_dates = unparseable_dates a + unparseable_dates b,
          unparseable_numbers = unparseable_numbers a + unparseable_numbers b,
          normalization_events = normalization_events a + normalization_events b\<rparr>"
    by (simp add: add_counters_def)
qed

theorem quality_report_sum_order_independent_witness:
  "mset [[[(cp ''amount'', cp ''12'')]],
         [[(cp ''amount'', cp ''3.5K'')], [(cp ''amount'', cp ''n/a'')]]]
     = mset [[[(cp ''amount'', cp ''3.5K'')], [(cp ''amount'', cp ''n/a'')]],
             [[(cp ''amount'', cp ''12'')]]]
   \<and> sum_reports
         (map (\<lambda>part. snd (clean \<lparr>currency_symbol = is_currency_symbol,
                                    clean_date = (\<lambda>v. (TextValue v, Original)),
                                    clean_text = (\<lambda>v. (TextValue v, Original)),
                                    clean_category = (\<lambda>v. (TextValue v, Original))\<rparr>
                                  (\<lambda>name. NumberType) part))
              [[[(cp ''amount'', cp ''12'')]],
               [[(cp ''amount'', cp ''3.5K'')], [(cp ''amount'', cp ''n/a'')]]])
     = snd (clean \<lparr>currency_symbol = is_currency_symbol,
                    clean_date = (\<lambda>v. (TextValue v, Original)),
                    clean_text = (\<lambda>v. (TextValue v, Original)),
                    clean_category = (\<lambda>v. (TextValue v, Original))\<rparr>
                  (\<lambda>name. NumberType)
                  [[(cp ''amount'', cp ''3.5K'')], [(cp ''amount'', cp ''n/a'')],
                   [(cp ''amount'', cp ''12'')]])
   \<and> snd (clean \<lparr>currency_symbol = is_currency_symbol,
                    clean_date = (\<lambda>v. (TextValue v, Original)),
                    clean_text = (\<lambda>v. (TextValue v, Original)),
                    clean_category = (\<lambda>v. (TextValue v, Original))\<rparr>
                  (\<lambda>name. NumberType)
                  [[(cp ''amount'', cp ''3.5K'')], [(cp ''amount'', cp ''n/a'')],
                   [(cp ''amount'', cp ''12'')]])
     = \<lparr>total_items = 3, missing_values = 0, unparseable_dates = 0,
        unparseable_numbers = 1, normalization_events = 1\<rparr>"
proof -
  let ?A = "[(cp ''amount'', cp ''3.5K'')]"
  let ?B = "[(cp ''amount'', cp ''n/a'')]"
  let ?C = "[(cp ''amount'', cp ''12'')]"
  let ?cl = "\<lparr>currency_symbol = is_currency_symbol,
                    clean_date = (\<lambda>v. (TextValue v, Original)),
                    clean_text = (\<lambda>v. (TextValue v, Original)),
                    clean_category = (\<lambda>v. (TextValue v, Original))\<rparr>"
  have h: "mset [[?C], [?A, ?B]] = mset [[?A, ?B], [?C]]"
    by (simp add: add_mset_commute)
  have c: "concat [[?A, ?B], [?C]] = [?A, ?B, ?C]" by simp
  note w = quality_report_sum_order_independent[OF h, where cl = ?cl
      and schema = "\<lambda>name. NumberType" and items = "[?A, ?B, ?C]"]
  have p: "sum_reports (map (\<lambda>part. snd (clean ?cl (\<lambda>name. NumberType) part)) [[?C], [?A, ?B]])
      = snd (clean ?cl (\<lambda>name. NumberType) [?A, ?B, ?C])"
    using w[THEN conjunct2, THEN conjunct1] by (simp only: c)
  have fa: "snd (clean_number_field is_currency_symbol (cp ''3.5K'')) = Normalized"
    by (simp add: clean_number_field_def clean_number_def strip_symbols_def is_currency_symbol_def
        cp_def magnitude_def ends_with_def to_lower_def parse_decimal_def is_digit_def
        digits_value_def)
  have fb: "snd (clean_number_field is_currency_symbol (cp ''n/a'')) = Unparseable"
    by (simp add: clean_number_field_def clean_number_def strip_symbols_def is_currency_symbol_def
        cp_def magnitude_def ends_with_def to_lower_def parse_decimal_def is_digit_def
        digits_value_def)
  have fc: "snd (clean_number_field is_currency_symbol (cp ''12'')) = Original"
    by (simp add: clean_number_field_def clean_number_def strip_symbols_def is_currency_symbol_def
        cp_def magnitude_def ends_with_def to_lower_def parse_decimal_def is_digit_def
        digits_value_def)
  have v: "snd (clean ?cl (\<lambda>name. NumberType) [?A, ?B, ?C])
     = \<lparr>total_items = 3, missing_values = 0, unparseable_dates = 0,
        unparseable_numbers = 1, normalization_events = 1\<rparr>"
    using w[THEN conjunct1] by (simp add: fa fb fc)
  from h p v show ?thesis by (intro conjI)
qed


section \<open>Properties of the orchestrator\<close>

lemma empty_report_fields:
  "total_items empty_report = 0" "missing_values empty_report = 0"
  "unparseable_dates empty_report = 0" "unparseable_numbers empty_report = 0"
  "normalization_events empty_report = 0" "\<not> summary empty_report"
  by (simp_all add: empty_report_def zero_counters_def quality_counters.extend_def
      quality_report.fields_def)

lemma run_clarifying:
  assumes "needs_clarification (planner c utterance history)"
  shows "run c utterance history =
     \<lparr>answer = (case clarification_question (planner c utterance history) of
                  Some q \<Rightarrow> q | None \<Rightarrow> []),
      action_trace = [Enter PLANNING, Enter CLARIFYING, Exit True],
      data_quality_report = empty_report\<rparr>"
  using assms by (simp add: run_def Let_def)

text \<open>
  C7. When the plan asks for clarification, the response has the empty quality report
  (every counter 0, not flagged), its trace has no entry for FETCHING or CLEANING, its
  answer is the clarification question, and the data source, the metric engine and the
  composer have no influence on it.
\<close>

theorem run_clarification_short_circuit:
  assumes "needs_clarification (planner c utterance history)"
  shows "data_quality_report (run c utterance history) = empty_report
    \<and> total_items empty_report = 0 \<and> missing_values empty_report = 0
    \<and> unparseable_dates empty_report = 0 \<and> unparseable_numbers empty_report = 0
    \<and> normalization_events empty_report = 0 \<and> \<not> summary empty_report
    \<and> Enter FETCHING \<notin> set (action_trace (run c utterance history))
    \<and> Enter CLEANING \<notin> set (action_trace (run c utterance history))
    \<and> (\<forall>q. clarification_question (planner c utterance history) = Some q \<longrightarrow>
           answer (run c utterance history) = q)
    \<and> (\<forall>f g h. run (c\<lparr>fetch := f, compute := g, composer := h\<rparr>) utterance history
                 = run c utterance history)"
proof -
  have r: "run c utterance history =
     \<lparr>answer = (case clarification_question (planner c utterance history) of
                  Some q \<Rightarrow> q | None \<Rightarrow> []),
      action_trace = [Enter PLANNING, Enter CLARIFYING, Exit True],
      data_quality_report = empty_report\<rparr>"
    by (rule run_clarifying[OF assms])
  have i: "run (c\<lparr>fetch := f, compute := g, composer := h\<rparr>) utterance history
                 = run c utterance history" for f g h
    using assms by (simp add: run_def Let_def)
  show ?thesis
    by (intro conjI allI impI) (simp_all add: r empty_report_fields i)
qed

theorem run_clarification_short_circuit_witness:
  "needs_clarification
     (planner \<lparr>planner = (\<lambda>u h. \<lparr>boards = [cp ''deals''], filters = [], metrics = [],
                                  analysis_type = [], needs_clarification = True,
                                  clarification_question = Some (cp ''Which board?'')\<rparr>),
               fetch = (\<lambda>b. Inr []), schema_of = (\<lambda>b f. TextType),
               field_cleaners = \<lparr>currency_symbol = (\<lambda>c. c = rupee),
                                  clean_date = (\<lambda>v. (TextValue v, Original)),
                                  clean_text = (\<lambda>v. (TextValue v, Original)),
                                  clean_category = (\<lambda>v. (TextValue v, Original))\<rparr>,
               compute = (\<lambda>items p. [] :: nat list), composer = (\<lambda>ms q u. cp ''briefing''),
               flagged = (\<lambda>q. True), failure_answer = cp ''failed''\<rparr>
        (cp ''how are we doing'') [])
   \<and> run \<lparr>planner = (\<lambda>u h. \<lparr>boards = [cp ''deals''], filters = [], metrics = [],
                                  analysis_type = [], needs_clarification = True,
                                  clarification_question = Some (cp ''Which board?'')\<rparr>),
               fetch = (\<lambda>b. Inr []), schema_of = (\<lambda>b f. TextType),
               field_cleaners = \<lparr>currency_symbol = (\<lambda>c. c = rupee),
                                  clean_date = (\<lambda>v. (TextValue v, Original)),
                                  clean_text = (\<lambda>v. (TextValue v, Original)),
                                  clean_category = (\<lambda>v. (TextValue v, Original))\<rparr>,
               compute = (\<lambda>items p. [] :: nat list), composer = (\<lambda>ms q u. cp ''briefing''),
               flagged = (\<lambda>q. True), failure_answer = cp ''failed''\<rparr>
        (cp ''how are we doing'') []
     = \<lparr>answer = cp ''Which board?'',
        action_trace = [Enter PLANNING, Enter CLARIFYING, Exit True],
        data_quality_report = empty_report\<rparr>"
proof -
  let ?c = "\<lparr>planner = (\<lambda>u h. \<lparr>boards = [cp ''deals''], filters = [], metrics = [],
                                  analysis_type = [], needs_clarification = True,
                                  clarification_question = Some (cp ''Which board?'')\<rparr>),
               fetch = (\<lambda>b. Inr []), schema_of = (\<lambda>b f. TextType),
               field_cleaners = \<lparr>currency_symbol = (\<lambda>c. c = rupee),
                                  clean_date = (\<lambda>v. (TextValue v, Original)),
                                  clean_text = (\<lambda>v. (TextValue v, Original)),
                                  clean_category = (\<lambda>v. (TextValue v, Original))\<rparr>,
               compute = (\<lambda>items p. [] :: nat list), composer = (\<lambda>ms q u. cp ''briefing''),
               flagged = (\<lambda>q. True), failure_answer = cp ''failed''\<rparr>"
  have h: "needs_clarification (planner ?c (cp ''how are we doing'') [])" by simp
  note w = run_clarification_short_circuit[where c = ?c, OF h]
  from w have q: "data_quality_report (run ?c (cp ''how are we doing'') []) = empty_report"
    by (rule conjunct1)
  from w have "\<forall>q. clarification_question (planner ?c (cp ''how are we doing'') []) = Some q \<longrightarrow>
           answer (run ?c (cp ''how are we doing'') []) = q"
    by (elim conjE)
  then have a: "answer (run ?c (cp ''how are we doing'') []) = cp ''Which board?''" by simp
  have t: "action_trace (run ?c (cp ''how are we doing'') []) =
      [Enter PLANNING, Enter CLARIFYING, Exit True]"
    by (simp add: run_def Let_def)
  have "run ?c (cp ''how are we doing'') []
     = \<lparr>answer = cp ''Which board?'',
        action_trace = [Enter PLANNING, Enter CLARIFYING, Exit True],
        data_quality_report = empty_report\<rparr>"
    using q a t by (intro response_envelope.equality) simp_all
  with h show ?thesis by (intro conjI)
qed

end
